theory Spec2Isabelle
  imports Main "HOL-Library.AList"
begin

section \<open>Nuclide debugger bridge: a shallow embedding\<close>

text \<open>
  The development follows four classes of the repository:
  \<^item> \<open>DebuggerInstance\<close> (modules/nuclide-debugger-common/DebuggerInstance.js),
  \<^item> \<open>CommandDispatcher\<close> (pkg/nuclide-debugger/lib/CommandDispatcher.js),
  \<^item> \<open>RemoteObjectManager\<close> and \<open>ExpressionEvaluationManager\<close>
    (pkg/nuclide-debugger/lib/main.js),
  \<^item> \<open>DebuggerHandler\<close> (pkg/nuclide-debugger-php-rpc/lib/PhpDebuggerService.js).

  Every object is a record of its fields. A method takes the object and returns the
  updated object; what a method does to the outside (a call on a collaborator, an event
  pushed to a listener, a line given to the logger or to the error reporter) is appended
  to a list kept with the object, in program order. A method that can throw returns the
  exception beside the state, since a JavaScript exception does not undo the writes made
  before it.
\<close>

subsection \<open>JavaScript values and template strings\<close>

datatype jsval =
    JUndefined
  | JNull
  | JBool bool
  | JNum int
  | JStr string
  | JObj nat

text \<open>\<open>args[i]\<close> of a JavaScript array: \<open>undefined\<close> beyond the end.\<close>

definition arg :: "jsval list \<Rightarrow> nat \<Rightarrow> jsval" where
  "arg args i = (if i < length args then args ! i else JUndefined)"

text \<open>
  A template string is kept as its pieces: literal text and interpolated values, so that
  \<open>`Command ${args[0]} is not implemented yet.`\<close> is
  \<open>[Lit ''Command '', Interp (arg args 0), Lit '' is not implemented yet.'']\<close>.
\<close>

datatype piece = Lit string | Interp jsval

type_synonym message = "piece list"

datatype exn =
    Error message
  | InvariantViolation
  | TypeError

subsection \<open>DebuggerInstance\<close>

datatype log_level = Debug | Info | Warn | Err

record DebuggerInstance =
  di_disposed :: bool
  di_disposablesDisposed :: bool
  di_logger :: "(log_level \<times> string \<times> string list) list"
  di_inflight :: "string list"
  di_rpcSent :: "string list"

text \<open>The constructor sets \<open>_disposed = false\<close>; nothing has been logged or sent.\<close>

definition DebuggerInstance_new :: DebuggerInstance where
  "DebuggerInstance_new =
     \<lparr>di_disposed = False, di_disposablesDisposed = False, di_logger = [],
      di_inflight = [], di_rpcSent = []\<rparr>"

text \<open>
  \<open>dispose()\<close>: \<open>this._disposed = true; this._disposables.dispose();\<close>
\<close>

definition DebuggerInstance_dispose :: "DebuggerInstance \<Rightarrow> DebuggerInstance" where
  "DebuggerInstance_dispose d = d\<lparr>di_disposed := True, di_disposablesDisposed := True\<rparr>"

text \<open>
  \<open>_handleChromeSocketMessage\<close> is an async function: its call runs up to
  \<open>await this.preProcessClientMessage(message)\<close>, which leaves the message in flight;
  \<open>handleChromeSocketMessage_resume\<close> is the continuation, which gives the oldest
  message in flight to \<open>this._rpcService.sendCommand\<close>. \<open>preProcess\<close> is the hook
  \<open>preProcessClientMessage\<close> (the identity in the base class) and \<open>translate\<close> is
  \<open>translateMessageToServer\<close> of ChromeMessageRemoting.
\<close>

definition handleChromeSocketMessage :: "string \<Rightarrow> DebuggerInstance \<Rightarrow> DebuggerInstance" where
  "handleChromeSocketMessage message d = d\<lparr>di_inflight := di_inflight d @ [message]\<rparr>"

definition handleChromeSocketMessage_resume ::
  "(string \<Rightarrow> string) \<Rightarrow> (string \<Rightarrow> string) \<Rightarrow> DebuggerInstance \<Rightarrow> DebuggerInstance" where
  "handleChromeSocketMessage_resume preProcess translate d =
     (case di_inflight d of
        [] \<Rightarrow> d
      | message # rest \<Rightarrow>
          d\<lparr>di_inflight := rest,
            di_rpcSent := di_rpcSent d @ [translate (preProcess message)]\<rparr>)"

definition sendNuclideMessage :: "string \<Rightarrow> DebuggerInstance \<Rightarrow> DebuggerInstance" where
  "sendNuclideMessage message d =
     (if di_disposed d
      then d\<lparr>di_logger := di_logger d @ [(Err, ''sendNuclideMessage after dispose!'', [message])]\<rparr>
      else handleChromeSocketMessage message d)"

subsection \<open>CommandDispatcher\<close>

text \<open>
  \<open>BridgeAdapter\<close> is a collaborator: what the dispatcher does to it is the sequence of
  methods it calls on it, with their arguments.
\<close>

datatype adapter_call =
    Enable
  | Resume
  | Pause
  | StepOver
  | StepInto
  | StepOut
  | RunToLocation jsval jsval jsval
  | SetInitialBreakpoints jsval
  | SetFilelineBreakpoint jsval
  | RemoveBreakpoint jsval
  | UpdateBreakpoint jsval
  | SetSelectedCallFrameIndex jsval
  | EvaluateExpression jsval jsval jsval
  | SetVariable jsval jsval jsval jsval
  | Completions jsval jsval jsval
  | GetProperties jsval jsval
  | SelectThread jsval
  | SetPauseOnException jsval
  | SetPauseOnCaughtException jsval
  | SetSingleThreadStepping jsval
  | SetShowDisassembly jsval

record BridgeAdapter =
  ba_calls :: "adapter_call list"

text \<open>
  \<open>cd_sessionSubscriptions\<close> is \<open>None\<close> for \<open>null\<close> and holds the number of teardowns
  added otherwise; \<open>cd_reported\<close> is what was given to \<open>reportError\<close> of EventReporter.
\<close>

record CommandDispatcher =
  cd_sessionSubscriptions :: "nat option"
  cd_bridgeAdapter :: "BridgeAdapter option"
  cd_reported :: "message list"

definition CommandDispatcher_new :: CommandDispatcher where
  "CommandDispatcher_new =
     \<lparr>cd_sessionSubscriptions = None, cd_bridgeAdapter = None, cd_reported = []\<rparr>"

definition ensureSessionCreated :: "CommandDispatcher \<Rightarrow> CommandDispatcher" where
  "ensureSessionCreated d =
     (if cd_sessionSubscriptions d = None then d\<lparr>cd_sessionSubscriptions := Some 0\<rparr> else d)"

text \<open>
  \<open>setupNuclideChannel\<close> is an async function. Its call runs up to the \<open>await\<close> of
  the bootstrap; its continuation binds a new adapter, checks the \<open>invariant\<close> on the
  subscriptions (which throws when \<open>cleanupSessionState\<close> ran in between) and adds the
  adapter's teardown to them.
\<close>

definition setupNuclideChannel :: "CommandDispatcher \<Rightarrow> CommandDispatcher" where
  "setupNuclideChannel d = ensureSessionCreated d"

definition setupNuclideChannel_resume :: "CommandDispatcher \<Rightarrow> CommandDispatcher \<times> exn option" where
  "setupNuclideChannel_resume d =
     (let d' = d\<lparr>cd_bridgeAdapter := Some \<lparr>ba_calls = []\<rparr>\<rparr>
      in case cd_sessionSubscriptions d' of
           None \<Rightarrow> (d', Some InvariantViolation)
         | Some n \<Rightarrow> (d'\<lparr>cd_sessionSubscriptions := Some (Suc n)\<rparr>, None))"

text \<open>
  \<open>cleanupSessionState\<close>: disposing the subscriptions runs the teardown added by
  \<open>setupNuclideChannel\<close>, which disposes the adapter and sets \<open>_bridgeAdapter = null\<close>.
\<close>

definition cleanupSessionState :: "CommandDispatcher \<Rightarrow> CommandDispatcher" where
  "cleanupSessionState d =
     (case cd_sessionSubscriptions d of
        None \<Rightarrow> d
      | Some n \<Rightarrow>
          (if 0 < n then d\<lparr>cd_bridgeAdapter := None, cd_sessionSubscriptions := None\<rparr>
           else d\<lparr>cd_sessionSubscriptions := None\<rparr>))"

definition call :: "adapter_call \<Rightarrow> BridgeAdapter \<Rightarrow> CommandDispatcher \<Rightarrow> CommandDispatcher \<times> exn option" where
  "call c a d = (d\<lparr>cd_bridgeAdapter := Some (a\<lparr>ba_calls := ba_calls a @ [c]\<rparr>)\<rparr>, None)"

definition reportError :: "message \<Rightarrow> CommandDispatcher \<Rightarrow> CommandDispatcher \<times> exn option" where
  "reportError m d = (d\<lparr>cd_reported := cd_reported d @ [m]\<rparr>, None)"

definition triggerDebuggerAction :: "jsval \<Rightarrow> CommandDispatcher \<Rightarrow> CommandDispatcher \<times> exn option" where
  "triggerDebuggerAction actionId d =
     (case cd_bridgeAdapter d of
        None \<Rightarrow> (d, Some InvariantViolation)
      | Some a \<Rightarrow>
          if actionId = JStr ''debugger.toggle-pause''
            then reportError [Lit ''toggle-pause is not implemented yet.''] d
          else if actionId = JStr ''debugger.step-over'' then call StepOver a d
          else if actionId = JStr ''debugger.step-into'' then call StepInto a d
          else if actionId = JStr ''debugger.step-out'' then call StepOut a d
          else if actionId = JStr ''debugger.run-snippet'' then call Resume a d
          else (d, Some (Error [Lit ''_triggerDebuggerAction: unrecognized actionId: '',
                                Interp actionId])))"

definition sendViaNuclideChannel :: "jsval list \<Rightarrow> CommandDispatcher \<Rightarrow> CommandDispatcher \<times> exn option" where
  "sendViaNuclideChannel args d =
     (case cd_bridgeAdapter d of
        None \<Rightarrow> (d, None)
      | Some a \<Rightarrow>
          let c = arg args 0 in
          if c = JStr ''Continue'' then call Resume a d
          else if c = JStr ''Pause'' then call Pause a d
          else if c = JStr ''StepOver'' then call StepOver a d
          else if c = JStr ''StepInto'' then call StepInto a d
          else if c = JStr ''StepOut'' then call StepOut a d
          else if c = JStr ''RunToLocation''
            then call (RunToLocation (arg args 1) (arg args 2) (arg args 3)) a d
          else if c = JStr ''triggerDebuggerAction'' then triggerDebuggerAction (arg args 1) d
          else if c = JStr ''SyncBreakpoints'' then call (SetInitialBreakpoints (arg args 1)) a d
          else if c = JStr ''AddBreakpoint'' then call (SetFilelineBreakpoint (arg args 1)) a d
          else if c = JStr ''DeleteBreakpoint'' then call (RemoveBreakpoint (arg args 1)) a d
          else if c = JStr ''UpdateBreakpoint'' then call (UpdateBreakpoint (arg args 1)) a d
          else if c = JStr ''setSelectedCallFrameIndex''
            then call (SetSelectedCallFrameIndex (arg args 1)) a d
          else if c = JStr ''evaluateOnSelectedCallFrame''
            then call (EvaluateExpression (arg args 1) (arg args 2) (arg args 3)) a d
          else if c = JStr ''runtimeEvaluate''
            then call (EvaluateExpression (arg args 1) (arg args 2) (JStr ''console'')) a d
          else if c = JStr ''setVariable''
            then call (SetVariable (arg args 1) (arg args 2) (arg args 3) (arg args 4)) a d
          else if c = JStr ''completions''
            then call (Completions (arg args 1) (arg args 2) (arg args 3)) a d
          else if c = JStr ''getProperties'' then call (GetProperties (arg args 1) (arg args 2)) a d
          else if c = JStr ''selectThread'' then call (SelectThread (arg args 1)) a d
          else if c = JStr ''setPauseOnException'' then call (SetPauseOnException (arg args 1)) a d
          else if c = JStr ''setPauseOnCaughtException''
            then call (SetPauseOnCaughtException (arg args 1)) a d
          else if c = JStr ''setSingleThreadStepping''
            then call (SetSingleThreadStepping (arg args 1)) a d
          else if c = JStr ''setShowDisassembly'' then call (SetShowDisassembly (arg args 1)) a d
          else reportError [Lit ''Command '', Interp c, Lit '' is not implemented yet.''] d)"

definition send :: "jsval list \<Rightarrow> CommandDispatcher \<Rightarrow> CommandDispatcher \<times> exn option" where
  "send args d = sendViaNuclideChannel args d"

text \<open>The command names and action ids that the two switches have a case for.\<close>

definition recognizedCommands :: "string list" where
  "recognizedCommands =
     [''Continue'', ''Pause'', ''StepOver'', ''StepInto'', ''StepOut'', ''RunToLocation'',
      ''triggerDebuggerAction'', ''SyncBreakpoints'', ''AddBreakpoint'', ''DeleteBreakpoint'',
      ''UpdateBreakpoint'', ''setSelectedCallFrameIndex'', ''evaluateOnSelectedCallFrame'',
      ''runtimeEvaluate'', ''setVariable'', ''completions'', ''getProperties'', ''selectThread'',
      ''setPauseOnException'', ''setPauseOnCaughtException'', ''setSingleThreadStepping'',
      ''setShowDisassembly'']"

definition recognizedActions :: "string list" where
  "recognizedActions =
     [''debugger.toggle-pause'', ''debugger.step-over'', ''debugger.step-into'',
      ''debugger.step-out'', ''debugger.run-snippet'']"

text \<open>A new dispatcher after \<open>setupNuclideChannel\<close> has completed: an adapter is bound.\<close>

definition connectedDispatcher :: CommandDispatcher where
  "connectedDispatcher =
     fst (setupNuclideChannel_resume (setupNuclideChannel CommandDispatcher_new))"

subsection \<open>RemoteObjectManager and ExpressionEvaluationManager\<close>

type_synonym RemoteObjectId = string
type_synonym ExceptionDetails = string

record RemoteObject =
  ro_type :: string
  ro_subtype :: "string option"
  ro_objectId :: "RemoteObjectId option"
  ro_value :: jsval
  ro_description :: "string option"

record EvaluateOnCallFrameResponse =
  er_result :: "RemoteObject option"
  er_wasThrown :: bool
  er_exceptionDetails :: "ExceptionDetails option"

record PropertyDescriptor =
  pd_name :: string
  pd_value :: "RemoteObject option"

text \<open>
  The error a protocol callback is given: a string, or an object, kept as the text
  \<open>JSON.stringify\<close> gives for it. \<open>error_text\<close> is
  \<open>typeof error === 'string' ? error : JSON.stringify(error)\<close>; \<open>error_json\<close> is
  \<open>JSON.stringify(error)\<close>, where \<open>stringify\<close> is \<open>JSON.stringify\<close> on strings (the
  quoting and escaping of the language).
\<close>

datatype protocol_error = ErrorString string | ErrorObject string

fun error_text :: "protocol_error \<Rightarrow> string" where
  "error_text (ErrorString s) = s"
| "error_text (ErrorObject json) = json"

fun error_json :: "(string \<Rightarrow> string) \<Rightarrow> protocol_error \<Rightarrow> string" where
  "error_json stringify (ErrorString s) = stringify s"
| "error_json stringify (ErrorObject json) = json"

datatype RemoteObjectProxy = RemoteObjectProxy RemoteObjectId

text \<open>
  Calls on the two domain dispatchers, each with what its callback closes over, and the
  events pushed to \<open>_evalutionEvent$\<close>.
\<close>

datatype dispatcher_call =
    DebuggerEvaluateOnCallFrame string string string
  | RuntimeGetProperties RemoteObjectId

datatype ipc_event =
    ExpressionEvaluationResponse "RemoteObject option" "ExceptionDetails option" string int
  | GetPropertiesResponse "PropertyDescriptor list" RemoteObjectId int

datatype error_sink = ReportError | ReportErrorFromConsole

record ExpressionEvaluationManager =
  em_remoteObjects :: "RemoteObjectId \<rightharpoonup> RemoteObjectProxy"
  em_events :: "ipc_event list"
  em_calls :: "dispatcher_call list"
  em_reported :: "(error_sink \<times> string) list"

definition ExpressionEvaluationManager_new :: ExpressionEvaluationManager where
  "ExpressionEvaluationManager_new =
     \<lparr>em_remoteObjects = Map.empty, em_events = [], em_calls = [], em_reported = []\<rparr>"

definition addObject :: "RemoteObjectId \<Rightarrow> ExpressionEvaluationManager \<Rightarrow> ExpressionEvaluationManager" where
  "addObject objectId m =
     m\<lparr>em_remoteObjects := (em_remoteObjects m)(objectId \<mapsto> RemoteObjectProxy objectId)\<rparr>"

definition getRemoteObjectFromId :: "RemoteObjectId \<Rightarrow> ExpressionEvaluationManager \<Rightarrow> RemoteObjectProxy option" where
  "getRemoteObjectFromId objectId m = em_remoteObjects m objectId"

definition clear :: "ExpressionEvaluationManager \<Rightarrow> ExpressionEvaluationManager" where
  "clear m = m\<lparr>em_remoteObjects := Map.empty\<rparr>"

definition clearPauseStates :: "ExpressionEvaluationManager \<Rightarrow> ExpressionEvaluationManager" where
  "clearPauseStates m = clear m"

definition raiseIPCEvent :: "ipc_event \<Rightarrow> ExpressionEvaluationManager \<Rightarrow> ExpressionEvaluationManager" where
  "raiseIPCEvent e m = m\<lparr>em_events := em_events m @ [e]\<rparr>"

definition report :: "error_sink \<Rightarrow> string \<Rightarrow> ExpressionEvaluationManager \<Rightarrow> ExpressionEvaluationManager" where
  "report sink text m = m\<lparr>em_reported := em_reported m @ [(sink, text)]\<rparr>"

text \<open>\<open>evaluateOnCallFrame\<close> gives the request and its callback to the debugger dispatcher.\<close>

definition evaluateOnCallFrame ::
  "int \<Rightarrow> string \<Rightarrow> string \<Rightarrow> string \<Rightarrow> ExpressionEvaluationManager \<Rightarrow> ExpressionEvaluationManager" where
  "evaluateOnCallFrame transactionId callFrameId expression objectGroup m =
     m\<lparr>em_calls := em_calls m @ [DebuggerEvaluateOnCallFrame callFrameId expression objectGroup]\<rparr>"

text \<open>
  The callback of \<open>evaluateOnCallFrame\<close>, for the request it closes over
  (\<open>transactionId\<close>, \<open>expression\<close>, \<open>objectGroup\<close>): \<open>error\<close> is \<open>None\<close> for
  \<open>null\<close>.
\<close>

definition evaluateOnCallFrame_callback ::
  "int \<Rightarrow> string \<Rightarrow> string \<Rightarrow> protocol_error option \<Rightarrow> EvaluateOnCallFrameResponse
     \<Rightarrow> ExpressionEvaluationManager \<Rightarrow> ExpressionEvaluationManager" where
  "evaluateOnCallFrame_callback transactionId expression objectGroup error response m =
     (case error of
        Some e \<Rightarrow>
          (let errorMsg = ''evaluateOnCallFrame failed with '' @ error_text e
           in if objectGroup = ''console'' then report ReportErrorFromConsole errorMsg m
              else report ReportError errorMsg m)
      | None \<Rightarrow>
          (let m1 = (case er_result response of
                       None \<Rightarrow> m
                     | Some result \<Rightarrow>
                         (case ro_objectId result of
                            None \<Rightarrow> m
                          | Some objectId \<Rightarrow> addObject objectId m))
           in raiseIPCEvent
                (ExpressionEvaluationResponse (er_result response)
                   (if er_wasThrown response then er_exceptionDetails response else None)
                   expression transactionId) m1))"

text \<open>
  \<open>_propertiesToExpansionResult\<close>: the properties with a value, in order; the object
  of each one that has an \<open>objectId\<close> is registered.
\<close>

fun propertiesToExpansionResult ::
  "PropertyDescriptor list \<Rightarrow> ExpressionEvaluationManager
     \<Rightarrow> PropertyDescriptor list \<times> ExpressionEvaluationManager" where
  "propertiesToExpansionResult [] m = ([], m)"
| "propertiesToExpansionResult (p # ps) m =
     (case pd_value p of
        None \<Rightarrow> propertiesToExpansionResult ps m
      | Some v \<Rightarrow>
          (let m1 = (case ro_objectId v of None \<Rightarrow> m | Some objectId \<Rightarrow> addObject objectId m);
               (rest, m2) = propertiesToExpansionResult ps m1
           in (p # rest, m2)))"

text \<open>
  \<open>getProperties(id, objectId)\<close> (\<open>reqId\<close> is the source's \<open>id\<close>): the lookup, and for a known object the request that
  \<open>RemoteObjectProxy.getProperties\<close> gives to the runtime dispatcher.
\<close>

definition getProperties :: "int \<Rightarrow> RemoteObjectId \<Rightarrow> ExpressionEvaluationManager \<Rightarrow> ExpressionEvaluationManager" where
  "getProperties reqId objectId m =
     (case getRemoteObjectFromId objectId m of
        None \<Rightarrow>
          report ReportError (''Cannot find object id '' @ objectId @ '' for getProperties()'') m
      | Some (RemoteObjectProxy proxyId) \<Rightarrow>
          m\<lparr>em_calls := em_calls m @ [RuntimeGetProperties proxyId]\<rparr>)"

text \<open>
  The callback of the proxy and the \<open>then\<close> of \<open>getProperties\<close>: an error is reported
  and rejects the promise, so that nothing is raised; a response is converted and raised.
\<close>

definition getProperties_callback ::
  "(string \<Rightarrow> string) \<Rightarrow> int \<Rightarrow> RemoteObjectId \<Rightarrow> protocol_error option
     \<Rightarrow> PropertyDescriptor list \<Rightarrow> ExpressionEvaluationManager \<Rightarrow> ExpressionEvaluationManager" where
  "getProperties_callback stringify reqId objectId error result m =
     (case error of
        Some e \<Rightarrow> report ReportError (''getProperties failed with '' @ error_json stringify e) m
      | None \<Rightarrow>
          (let (expansionResult, m1) = propertiesToExpansionResult result m
           in raiseIPCEvent (GetPropertiesResponse expansionResult objectId reqId) m1))"

subsection \<open>DebuggerHandler: data\<close>

text \<open>
  The values of \<open>ConnectionMultiplexerStatus\<close> that \<open>_onStatusChanged\<close> has a case for,
  and any other status; the three continuation commands of DbgpSocket.
\<close>

datatype mux_status = AllConnectionsPaused | SingleConnectionPaused | End | OtherStatus string

datatype continuation_command = COMMAND_STEP_INTO | COMMAND_STEP_OVER | COMMAND_STEP_OUT

text \<open>
  Modelled from the spec: the constant \<open>BREAKPOINT\<close> of ./Connection (not among the
  sources) is the stop reason that the spec writes "breakpoint".
\<close>

definition BREAKPOINT :: string where
  "BREAKPOINT = ''breakpoint''"

record Location =
  loc_filename :: string
  loc_lineNumber :: int

record Connection =
  cn_stopReason :: string
  cn_stopBreakpointLocation :: "Location option"

text \<open>
  A breakpoint of the BreakpointStore. \<open>hh_chromeId\<close> is the number whose decimal
  string the field \<open>chromeId\<close> holds: the handler makes every chromeId by \<open>String(id)\<close>
  and reads it back with \<open>Number\<close>. The hit count is a natural number (a
  JavaScript number counts exactly far beyond any number of stops).
\<close>

record HhBreakpoint =
  hh_chromeId :: nat
  hh_hitCount :: nat

text \<open>A \<open>DebugProtocol.Breakpoint\<close> as the handler builds it.\<close>

record Breakpoint =
  bp_verified :: bool
  bp_line :: int
  bp_id :: nat
  bp_nuclide_hitCount :: "nat option"

text \<open>
  What the handler reads from its ConnectionMultiplexer. The store's breakpoints are
  objects, held in \<open>mx_breakpoints\<close> by reference; \<open>mx_findBreakpoint\<close> is the
  store's \<open>findBreakpoint(filename, lineNumber)\<close>, which returns the reference of a
  breakpoint or \<open>null\<close>. \<open>mx_getEnabledConnection\<close> is \<open>None\<close> for a multiplexer
  object without the method \<open>getEnabledConnection\<close>, and what the method returns
  otherwise.
\<close>

record ConnectionMultiplexer =
  mx_getEnabledConnection :: "Connection option option"
  mx_enabledConnectionId :: "nat option"
  mx_requestSwitchMessage :: "string option"
  mx_findBreakpoint :: "string \<Rightarrow> int \<Rightarrow> nat option"
  mx_breakpoints :: "nat \<Rightarrow> HhBreakpoint"

text \<open>
  The fields of a \<open>VsBreakpointpointDescriptor\<close> that are never written after its
  creation. Its two mutable fields, \<open>vsBp\<close> and \<open>vsBpDeferred\<close>, are kept in the
  handler, under the descriptor's id: a descriptor is shared between \<open>_breakpoints\<close>
  and the suspended calls that hold it, and every descriptor gets a new id.
\<close>

record VsBreakpointDescriptor =
  bd_id :: nat
  bd_path :: string
  bd_line :: int
  bd_condition :: string

text \<open>
  A \<open>DebugProtocol.SourceBreakpoint\<close>. The array \<open>bpSources\<close> is a list of
  references into a heap of them, since \<open>new Set(bpSources)\<close> compares objects by
  identity.
\<close>

record SourceBreakpoint =
  sb_line :: int
  sb_condition :: "string option"

type_synonym source_heap = "nat \<Rightarrow> SourceBreakpoint"

datatype mux_call =
    MuxPause
  | MuxSendContinuationCommand continuation_command
  | MuxResetRequestSwitchMessage
  | MuxRemoveBreakpoint nat
  | StoreSetFileLineBreakpoint nat string int string
  | MuxRuntimeEvaluate string
  | MuxEvaluateOnCallFrame nat string
  | MuxGetProperties string
  | MuxDispose

datatype dap_event =
    OutputEvent string string
  | StoppedEvent string nat
  | TerminatedEvent
  | BreakpointEvent string Breakpoint

datatype handler_log =
    LogSendingStatus mux_status
  | LogUnusedStatus mux_status
  | LogEndingSession
  | LogSendingContinuationCommand continuation_command
  | LogBreakpointSourcesDiffer

text \<open>
  Everything the handler does to the outside, in one sequence: a call on the
  multiplexer or its store, an event given to \<open>_eventSender\<close>, a line given to the
  logger, and \<open>vsBpDeferred.resolve\<close> of the descriptor with the given id.
\<close>

datatype effect =
    Call mux_call
  | Emit dap_event
  | Log log_level handler_log
  | ResolveDeferred nat

datatype deferred = Pending | Resolved

text \<open>
  The suspended async calls. A call of \<open>_removeBreakpoint\<close> waits for the deferred,
  then for the multiplexer. A call of \<open>_setBreakpointFromDesciptior\<close> waits for the
  store. A call of \<open>setBreakpoints\<close> waits for its removals (\<open>fr_removals\<close> are their
  positions in \<open>dh_removals\<close>), then for the deferreds of \<open>newBreakpoints\<close>, and
  returns their breakpoints (by id).
\<close>

datatype remove_phase = AwaitDeferred | AwaitMuxRemove | RemoveDone | RemoveFailed

datatype set_phase = AwaitStore | SetDone | SetFailed

datatype frame_phase = AwaitRemovals | AwaitDeferreds | Returned "nat list" | Rejected

record frame =
  fr_removals :: "nat list"
  fr_add :: "VsBreakpointDescriptor list"
  fr_new :: "VsBreakpointDescriptor list"
  fr_nSources :: nat
  fr_phase :: frame_phase

text \<open>
  What \<open>_subscriptions\<close> holds: the constructor puts there the subscription to the
  multiplexer's status, the one to its notifications, and the multiplexer itself.
\<close>

datatype subscription = StatusSubscription | NotificationSubscription | MultiplexerDisposable

text \<open>
  A \<open>DebugVariable\<close>, and the \<open>Handles\<close> of vscode-debugadapter that keep them:
  \<open>create\<close> stores a value under the next handle (the first one is 1000) and returns
  the handle; \<open>get\<close> is the value stored under a handle, or \<open>undefined\<close>.
\<close>

record DebugVariable =
  dv_frameId :: "nat option"
  dv_objectId :: "string option"

record DebuggerHandler =
  dh_breakpointId :: nat
  dh_breakpoints :: "(string \<times> VsBreakpointDescriptor list) list"
  dh_vsBp :: "nat \<rightharpoonup> Breakpoint"
  dh_vsBpDeferred :: "nat \<Rightarrow> deferred"
  dh_variableHandles :: "nat \<rightharpoonup> DebugVariable"
  dh_nextHandle :: nat
  dh_subscriptions :: "subscription list"
  dh_subscriptionsDisposed :: bool
  dh_connectionMultiplexer :: ConnectionMultiplexer
  dh_trace :: "effect list"
  dh_removals :: "(nat \<times> remove_phase) list"
  dh_setting :: "(VsBreakpointDescriptor \<times> set_phase) list"
  dh_frames :: "frame list"

definition DebuggerHandler_new :: "ConnectionMultiplexer \<Rightarrow> DebuggerHandler" where
  "DebuggerHandler_new mux =
     \<lparr>dh_breakpointId = 0, dh_breakpoints = [], dh_vsBp = Map.empty,
      dh_vsBpDeferred = (\<lambda>n. Pending), dh_variableHandles = Map.empty, dh_nextHandle = 1000,
      dh_subscriptions = [StatusSubscription, NotificationSubscription, MultiplexerDisposable],
      dh_subscriptionsDisposed = False,
      dh_connectionMultiplexer = mux, dh_trace = [], dh_removals = [], dh_setting = [],
      dh_frames = []\<rparr>"

text \<open>A multiplexer with no connection and a store that finds no breakpoint.\<close>

definition idleMultiplexer :: ConnectionMultiplexer where
  "idleMultiplexer =
     \<lparr>mx_getEnabledConnection = Some None, mx_enabledConnectionId = None,
      mx_requestSwitchMessage = None, mx_findBreakpoint = (\<lambda>filename lineNumber. None),
      mx_breakpoints = (\<lambda>r. \<lparr>hh_chromeId = 0, hh_hitCount = 0\<rparr>)\<rparr>"

definition does :: "effect \<Rightarrow> DebuggerHandler \<Rightarrow> DebuggerHandler" where
  "does e h = h\<lparr>dh_trace := dh_trace h @ [e]\<rparr>"

subsection \<open>DebuggerHandler: commands and status notifications\<close>

definition pause :: "DebuggerHandler \<Rightarrow> DebuggerHandler" where
  "pause h = does (Call MuxPause) h"

definition sendContinuationCommand :: "continuation_command \<Rightarrow> DebuggerHandler \<Rightarrow> DebuggerHandler" where
  "sendContinuationCommand command h =
     does (Call (MuxSendContinuationCommand command))
       (does (Log Debug (LogSendingContinuationCommand command)) h)"

definition stepOver :: "DebuggerHandler \<Rightarrow> DebuggerHandler" where
  "stepOver h = sendContinuationCommand COMMAND_STEP_OVER h"

definition stepInto :: "DebuggerHandler \<Rightarrow> DebuggerHandler" where
  "stepInto h = sendContinuationCommand COMMAND_STEP_INTO h"

definition stepOut :: "DebuggerHandler \<Rightarrow> DebuggerHandler" where
  "stepOut h = sendContinuationCommand COMMAND_STEP_OUT h"

text \<open>
  Modelled from the spec: \<open>UniversalDisposable\<close> of nuclide-commons is not among the
  sources. By the spec the End notification "disposes all subscriptions" and "all
  resources": \<open>dispose()\<close> disposes everything the disposable holds, in the order of
  their addition, and holds nothing afterwards. Disposing the multiplexer is a call
  on it; disposing a subscription detaches a callback of the handler.
\<close>

fun disposeSubscription :: "subscription \<Rightarrow> DebuggerHandler \<Rightarrow> DebuggerHandler" where
  "disposeSubscription MultiplexerDisposable h = does (Call MuxDispose) h"
| "disposeSubscription StatusSubscription h = h"
| "disposeSubscription NotificationSubscription h = h"

definition disposeSubscriptions :: "DebuggerHandler \<Rightarrow> DebuggerHandler" where
  "disposeSubscriptions h =
     (fold disposeSubscription (dh_subscriptions h) h)
       \<lparr>dh_subscriptions := [], dh_subscriptionsDisposed := True\<rparr>"

definition endSession :: "DebuggerHandler \<Rightarrow> DebuggerHandler" where
  "endSession h =
     disposeSubscriptions (does (Emit TerminatedEvent) (does (Log Debug LogEndingSession) h))"

definition DebuggerHandler_dispose :: "DebuggerHandler \<Rightarrow> DebuggerHandler" where
  "DebuggerHandler_dispose h = endSession h"

text \<open>
  \<open>_getBreakpointById\<close>: the first descriptor with the id among all lists of
  \<open>_breakpoints\<close>, in the order of the Map; the result is the descriptor (for its
  id) and its \<open>vsBp\<close>, which is \<open>null\<close> until the deferred is resolved.
\<close>

definition findDescriptor :: "nat \<Rightarrow> DebuggerHandler \<Rightarrow> VsBreakpointDescriptor option" where
  "findDescriptor bpId h = find (\<lambda>bp. bd_id bp = bpId) (concat (map snd (dh_breakpoints h)))"

definition getBreakpointById :: "nat \<Rightarrow> DebuggerHandler \<Rightarrow> Breakpoint option" where
  "getBreakpointById bpId h =
     (case findDescriptor bpId h of
        None \<Rightarrow> None
      | Some bpDescriptior \<Rightarrow> dh_vsBp h (bd_id bpDescriptior))"

text \<open>
  The last two statements of \<open>_updateBreakpointHitCount\<close>: the field
  \<open>nuclide_hitCount\<close> of the breakpoint that \<open>_getBreakpointById\<close> returned is
  written, and the breakpoint is sent in an update event. \<open>vsBp\<close> is an object shared
  with its descriptor, so the write is made where the descriptor keeps it.
\<close>

definition setHitCount :: "nat \<Rightarrow> nat \<Rightarrow> DebuggerHandler \<Rightarrow> DebuggerHandler" where
  "setHitCount bpId hitCount h =
     (case findDescriptor bpId h of
        None \<Rightarrow> h
      | Some bpDescriptior \<Rightarrow>
          (case dh_vsBp h (bd_id bpDescriptior) of
             None \<Rightarrow> h
           | Some vsBreakpoint \<Rightarrow>
               (let vsBreakpoint' = vsBreakpoint\<lparr>bp_nuclide_hitCount := Some hitCount\<rparr>
                in does (Emit (BreakpointEvent ''update'' vsBreakpoint'))
                     (h\<lparr>dh_vsBp := (dh_vsBp h)(bd_id bpDescriptior \<mapsto> vsBreakpoint')\<rparr>))))"

definition updateBreakpointHitCount :: "DebuggerHandler \<Rightarrow> DebuggerHandler" where
  "updateBreakpointHitCount h =
     (let mux = dh_connectionMultiplexer h in
      case mx_getEnabledConnection mux of
        None \<Rightarrow> h
      | Some None \<Rightarrow> h
      | Some (Some currentConnection) \<Rightarrow>
          (if cn_stopReason currentConnection \<noteq> BREAKPOINT then h
           else
             (case cn_stopBreakpointLocation currentConnection of
                None \<Rightarrow> h
              | Some stopLocation \<Rightarrow>
                  (case mx_findBreakpoint mux (loc_filename stopLocation)
                          (loc_lineNumber stopLocation) of
                     None \<Rightarrow> h
                   | Some r \<Rightarrow>
                       (let hhBp = (mx_breakpoints mux r)
                              \<lparr>hh_hitCount := hh_hitCount (mx_breakpoints mux r) + 1\<rparr>;
                            h1 = h\<lparr>dh_connectionMultiplexer :=
                                     mux\<lparr>mx_breakpoints := fun_upd (mx_breakpoints mux) r hhBp\<rparr>\<rparr>
                        in (case getBreakpointById (hh_chromeId hhBp) h1 of
                              None \<Rightarrow> h1
                            | Some vsBreakpoint \<Rightarrow>
                                setHitCount (hh_chromeId hhBp) (hh_hitCount hhBp) h1))))))"

definition sendPausedMessage :: "DebuggerHandler \<Rightarrow> DebuggerHandler \<times> exn option" where
  "sendPausedMessage h =
     (let mux = dh_connectionMultiplexer h;
          requestSwitchMessage = mx_requestSwitchMessage mux;
          h1 = does (Call MuxResetRequestSwitchMessage)
                 (h\<lparr>dh_connectionMultiplexer := mux\<lparr>mx_requestSwitchMessage := None\<rparr>\<rparr>);
          h2 = (case requestSwitchMessage of
                  None \<Rightarrow> h1
                | Some text \<Rightarrow> does (Emit (OutputEvent text ''info'')) h1)
      in case mx_enabledConnectionId mux of
           None \<Rightarrow> (h2, Some (Error [Lit ''No active hhvm connection to pause!'']))
         | Some enabledConnectionId \<Rightarrow>
             (does (Emit (StoppedEvent ''breakpoint'' enabledConnectionId)) h2, None))"

definition onStatusChanged :: "mux_status \<Rightarrow> DebuggerHandler \<Rightarrow> DebuggerHandler \<times> exn option" where
  "onStatusChanged status h =
     (let h1 = does (Log Debug (LogSendingStatus status)) h in
      case status of
        AllConnectionsPaused \<Rightarrow> sendPausedMessage (updateBreakpointHitCount h1)
      | SingleConnectionPaused \<Rightarrow> sendPausedMessage (updateBreakpointHitCount h1)
      | End \<Rightarrow> (endSession h1, None)
      | OtherStatus name \<Rightarrow> (does (Log Warn (LogUnusedStatus status)) h1, None))"

subsection \<open>DebuggerHandler: evaluate and getProperties\<close>


definition createHandle :: "DebugVariable \<Rightarrow> DebuggerHandler \<Rightarrow> nat \<times> DebuggerHandler" where
  "createHandle v h =
     (dh_nextHandle h,
      h\<lparr>dh_variableHandles := (dh_variableHandles h)(dh_nextHandle h \<mapsto> v),
        dh_nextHandle := Suc (dh_nextHandle h)\<rparr>)"

text \<open>
  \<open>objectId ? this._variableHandles.create({objectId, frameId: null}) : 0\<close>: an absent
  or empty object id gives the reference 0.
\<close>

definition referenceFor :: "string option \<Rightarrow> DebuggerHandler \<Rightarrow> nat \<times> DebuggerHandler" where
  "referenceFor objectId h =
     (case objectId of
        None \<Rightarrow> (0, h)
      | Some oid \<Rightarrow>
          (if oid = [] then (0, h)
           else createHandle \<lparr>dv_frameId = None, dv_objectId = Some oid\<rparr> h))"











subsection \<open>DebuggerHandler: setBreakpoints and removeBreakpoint\<close>

text \<open>
  The elements of \<open>new Set(xs)\<close> in iteration order: the first occurrence of each
  element of the array. A Set compares objects by identity: source breakpoints are
  given by reference, and two descriptors are the same object exactly when they are
  the same record, each descriptor having an id of its own.
\<close>

definition jsSet :: "'a list \<Rightarrow> 'a list" where
  "jsSet xs = rev (remdups (rev xs))"

text \<open>
  Modelled from the spec: \<open>setDifference(a, b, hash)\<close> of nuclide-commons/collection
  is not among the sources. By the spec's diff rule (\<open>E - D\<close> and \<open>D - E\<close>, elements
  compared by identity of the hashed key) it keeps, in the order of \<open>a\<close>, the elements
  of \<open>a\<close> whose hash is the hash of no element of \<open>b\<close>. The hash \<open>v => v.line\<close> is
  applied to source breakpoints and to descriptors, hence given once for each type.
\<close>

definition setDifference :: "'a list \<Rightarrow> 'b list \<Rightarrow> ('a \<Rightarrow> 'h) \<Rightarrow> ('b \<Rightarrow> 'h) \<Rightarrow> 'a list" where
  "setDifference a b hashA hashB = filter (\<lambda>v. hashA v \<notin> hashB ` set b) a"

definition existingBreakpoints :: "string \<Rightarrow> DebuggerHandler \<Rightarrow> VsBreakpointDescriptor list" where
  "existingBreakpoints path h =
     (case map_of (dh_breakpoints h) path of None \<Rightarrow> [] | Some bps \<Rightarrow> bps)"

text \<open>The two differences that \<open>setBreakpoints\<close> computes: the add set and the remove set.\<close>

definition addBpSources :: "source_heap \<Rightarrow> VsBreakpointDescriptor list \<Rightarrow> nat list \<Rightarrow> nat list" where
  "addBpSources heap existing bpSources =
     setDifference (jsSet bpSources) (jsSet existing) (\<lambda>v. sb_line (heap v)) bd_line"

definition toRemoveBpDesciptiors ::
  "source_heap \<Rightarrow> VsBreakpointDescriptor list \<Rightarrow> nat list \<Rightarrow> VsBreakpointDescriptor list" where
  "toRemoveBpDesciptiors heap existing bpSources =
     setDifference (jsSet existing) (jsSet bpSources) bd_line (\<lambda>v. sb_line (heap v))"

text \<open>
  The \<open>map\<close> that builds a descriptor for each source of the add set, with
  \<open>id: ++this._breakpointId\<close> and \<open>condition: bpSrc.condition || ''\<close>; \<open>n\<close> is the
  counter before the element.
\<close>

fun addBpDescriptors :: "nat \<Rightarrow> string \<Rightarrow> SourceBreakpoint list \<Rightarrow> VsBreakpointDescriptor list" where
  "addBpDescriptors n path [] = []"
| "addBpDescriptors n path (bpSrc # rest) =
     \<lparr>bd_id = Suc n, bd_path = path, bd_line = sb_line bpSrc,
      bd_condition = (case sb_condition bpSrc of None \<Rightarrow> [] | Some c \<Rightarrow> c)\<rparr>
     # addBpDescriptors (Suc n) path rest"

text \<open>
  A call of \<open>_removeBreakpoint\<close> runs up to \<open>await bpDescriptior.vsBpDeferred.promise\<close>.
  Its first continuation runs once that promise is fulfilled and calls
  \<open>removeBreakpoint\<close> of the multiplexer; the second one runs when the multiplexer's
  promise is settled (\<open>ok\<close> for fulfilled).
\<close>

definition removeBreakpoint :: "VsBreakpointDescriptor \<Rightarrow> DebuggerHandler \<Rightarrow> DebuggerHandler" where
  "removeBreakpoint bpDescriptior h =
     h\<lparr>dh_removals := dh_removals h @ [(bd_id bpDescriptior, AwaitDeferred)]\<rparr>"

definition removeBreakpoint_resume :: "nat \<Rightarrow> DebuggerHandler \<Rightarrow> DebuggerHandler option" where
  "removeBreakpoint_resume k h =
     (if k < length (dh_removals h) \<and> snd (dh_removals h ! k) = AwaitDeferred
         \<and> dh_vsBpDeferred h (fst (dh_removals h ! k)) = Resolved
      then Some ((does (Call (MuxRemoveBreakpoint (fst (dh_removals h ! k)))) h)
                   \<lparr>dh_removals := (dh_removals h)[k := (fst (dh_removals h ! k), AwaitMuxRemove)]\<rparr>)
      else None)"

definition removeBreakpoint_settled :: "nat \<Rightarrow> bool \<Rightarrow> DebuggerHandler \<Rightarrow> DebuggerHandler option" where
  "removeBreakpoint_settled k ok h =
     (if k < length (dh_removals h) \<and> snd (dh_removals h ! k) = AwaitMuxRemove
      then Some (h\<lparr>dh_removals :=
                     (dh_removals h)[k := (fst (dh_removals h ! k),
                                           if ok then RemoveDone else RemoveFailed)]\<rparr>)
      else None)"

text \<open>
  A call of \<open>_setBreakpointFromDesciptior\<close> calls \<open>setFileLineBreakpoint\<close> of the store
  and waits. When the store's promise is fulfilled and the store has the breakpoint
  (\<open>Some resolved\<close>, its field \<open>resolved\<close>), the \<open>then\<close> callback of \<open>setBreakpoints\<close>
  resolves the deferred with the new \<open>Breakpoint\<close> and writes \<open>vsBp\<close>; its second
  parameter \<open>error\<close> is never given a value, so the deferred is never rejected. When
  the call fails (\<open>None\<close>) the callback does not run and the deferred stays pending.
\<close>

definition setBreakpointFromDesciptior :: "VsBreakpointDescriptor \<Rightarrow> DebuggerHandler \<Rightarrow> DebuggerHandler" where
  "setBreakpointFromDesciptior bpDescriptior h =
     (does (Call (StoreSetFileLineBreakpoint (bd_id bpDescriptior) (bd_path bpDescriptior)
                    (bd_line bpDescriptior) (bd_condition bpDescriptior))) h)
       \<lparr>dh_setting := dh_setting h @ [(bpDescriptior, AwaitStore)]\<rparr>"

definition setBreakpointFromDesciptior_settled ::
  "nat \<Rightarrow> bool option \<Rightarrow> DebuggerHandler \<Rightarrow> DebuggerHandler option" where
  "setBreakpointFromDesciptior_settled k outcome h =
     (if k < length (dh_setting h) \<and> snd (dh_setting h ! k) = AwaitStore
      then
        (let bpDescriptior = fst (dh_setting h ! k) in
         case outcome of
           None \<Rightarrow> Some (h\<lparr>dh_setting := (dh_setting h)[k := (bpDescriptior, SetFailed)]\<rparr>)
         | Some resolved \<Rightarrow>
             (let vsBp = \<lparr>bp_verified = resolved, bp_line = bd_line bpDescriptior,
                          bp_id = bd_id bpDescriptior, bp_nuclide_hitCount = None\<rparr>
              in Some ((does (ResolveDeferred (bd_id bpDescriptior)) h)
                         \<lparr>dh_vsBpDeferred := (dh_vsBpDeferred h)(bd_id bpDescriptior := Resolved),
                          dh_vsBp := (dh_vsBp h)(bd_id bpDescriptior \<mapsto> vsBp),
                          dh_setting := (dh_setting h)[k := (bpDescriptior, SetDone)]\<rparr>)))
      else None)"

text \<open>
  \<open>newBreakpoints\<close> of \<open>setBreakpoints\<close>: the existing descriptors whose id is not
  in \<open>toRemoveBpIds\<close>, followed by the added ones; \<open>n\<close> is \<open>_breakpointId\<close> at the
  call.
\<close>

definition newBreakpoints ::
  "source_heap \<Rightarrow> nat \<Rightarrow> string \<Rightarrow> VsBreakpointDescriptor list \<Rightarrow> nat list
     \<Rightarrow> VsBreakpointDescriptor list" where
  "newBreakpoints heap n path existing bpSources =
     filter (\<lambda>bp. bd_id bp \<notin> set (map bd_id (toRemoveBpDesciptiors heap existing bpSources)))
       existing
     @ addBpDescriptors n path (map heap (addBpSources heap existing bpSources))"

text \<open>
  A call of \<open>setBreakpoints(path, bpSources)\<close> up to its first \<open>await\<close>: the two
  differences, the new list stored under the path, a pending deferred for every new
  descriptor, and the calls of \<open>_removeBreakpoint\<close> for the remove set.
\<close>

definition setBreakpoints :: "source_heap \<Rightarrow> string \<Rightarrow> nat list \<Rightarrow> DebuggerHandler \<Rightarrow> DebuggerHandler" where
  "setBreakpoints heap path bpSources h =
     (let existing = existingBreakpoints path h;
          added = addBpDescriptors (dh_breakpointId h) path
                    (map heap (addBpSources heap existing bpSources));
          toRemove = toRemoveBpDesciptiors heap existing bpSources;
          h1 = h\<lparr>dh_breakpointId := dh_breakpointId h + length added,
                 dh_breakpoints :=
                   AList.update path
                     (newBreakpoints heap (dh_breakpointId h) path existing bpSources)
                     (dh_breakpoints h),
                 dh_vsBp := (\<lambda>n. if n \<in> set (map bd_id added) then None else dh_vsBp h n),
                 dh_vsBpDeferred :=
                   (\<lambda>n. if n \<in> set (map bd_id added) then Pending else dh_vsBpDeferred h n)\<rparr>;
          h2 = fold removeBreakpoint toRemove h1
      in h2\<lparr>dh_frames := dh_frames h2 @
               [\<lparr>fr_removals = [length (dh_removals h1) ..< length (dh_removals h2)],
                 fr_add = added,
                 fr_new = newBreakpoints heap (dh_breakpointId h) path existing bpSources,
                 fr_nSources = length bpSources,
                 fr_phase = AwaitRemovals\<rparr>]\<rparr>)"

text \<open>
  The continuation after \<open>await Promise.all\<close> of the removals: when all are done, the
  store is asked to set every added descriptor; when one has failed, the call is
  rejected.
\<close>

definition removalPhase :: "DebuggerHandler \<Rightarrow> nat \<Rightarrow> remove_phase option" where
  "removalPhase h k = (if k < length (dh_removals h) then Some (snd (dh_removals h ! k)) else None)"

definition setFramePhase :: "nat \<Rightarrow> frame_phase \<Rightarrow> DebuggerHandler \<Rightarrow> DebuggerHandler" where
  "setFramePhase c ph h = h\<lparr>dh_frames := (dh_frames h)[c := (dh_frames h ! c)\<lparr>fr_phase := ph\<rparr>]\<rparr>"

definition setBreakpoints_afterRemovals :: "nat \<Rightarrow> DebuggerHandler \<Rightarrow> DebuggerHandler option" where
  "setBreakpoints_afterRemovals c h =
     (if c < length (dh_frames h) \<and> fr_phase (dh_frames h ! c) = AwaitRemovals
      then
        (let f = dh_frames h ! c in
         if list_all (\<lambda>k. removalPhase h k = Some RemoveDone) (fr_removals f)
           then Some (setFramePhase c AwaitDeferreds (fold setBreakpointFromDesciptior (fr_add f) h))
         else if list_ex (\<lambda>k. removalPhase h k = Some RemoveFailed) (fr_removals f)
           then Some (setFramePhase c Rejected h)
         else None)
      else None)"

text \<open>
  The continuation after \<open>await Promise.all\<close> of the deferreds of \<open>newBreakpoints\<close>:
  the length check with its error line, and the return.
\<close>

definition setBreakpoints_afterSync :: "nat \<Rightarrow> DebuggerHandler \<Rightarrow> DebuggerHandler option" where
  "setBreakpoints_afterSync c h =
     (if c < length (dh_frames h) \<and> fr_phase (dh_frames h ! c) = AwaitDeferreds
      then
        (let f = dh_frames h ! c in
         if list_all (\<lambda>bp. dh_vsBpDeferred h (bd_id bp) = Resolved) (fr_new f)
           then Some (setFramePhase c (Returned (map bd_id (fr_new f)))
                        (if length (fr_new f) \<noteq> fr_nSources f
                         then does (Log Err LogBreakpointSourcesDiffer) h else h))
         else None)
      else None)"

subsection \<open>DebuggerHandler: executions\<close>

text \<open>
  One step of the event loop: a call made by the client of the handler, a notification
  of the multiplexer, a change of what the multiplexer shows, or the continuation of a
  suspended call. A step that is not enabled (a continuation whose promise is not
  settled) is \<open>None\<close>. The rejection that \<open>_onStatusChanged\<close> can end with is left
  to the caller, as for any promise nobody awaits.
\<close>

datatype action =
    CallSetBreakpoints string "nat list"
  | CallRemoveBreakpoint VsBreakpointDescriptor
  | CallPause
  | CallStep continuation_command
  | Notify mux_status
  | MuxShows ConnectionMultiplexer
  | ResumeRemove nat
  | SettleRemove nat bool
  | SettleStore nat "bool option"
  | ResumeAfterRemovals nat
  | ResumeAfterSync nat

fun exec :: "source_heap \<Rightarrow> action \<Rightarrow> DebuggerHandler \<Rightarrow> DebuggerHandler option" where
  "exec heap (CallSetBreakpoints path bpSources) h = Some (setBreakpoints heap path bpSources h)"
| "exec heap (CallRemoveBreakpoint bpDescriptior) h = Some (removeBreakpoint bpDescriptior h)"
| "exec heap CallPause h = Some (pause h)"
| "exec heap (CallStep command) h = Some (sendContinuationCommand command h)"
| "exec heap (Notify status) h = Some (fst (onStatusChanged status h))"
| "exec heap (MuxShows mux) h = Some (h\<lparr>dh_connectionMultiplexer := mux\<rparr>)"
| "exec heap (ResumeRemove k) h = removeBreakpoint_resume k h"
| "exec heap (SettleRemove k ok) h = removeBreakpoint_settled k ok h"
| "exec heap (SettleStore k outcome) h = setBreakpointFromDesciptior_settled k outcome h"
| "exec heap (ResumeAfterRemovals c) h = setBreakpoints_afterRemovals c h"
| "exec heap (ResumeAfterSync c) h = setBreakpoints_afterSync c h"

fun run :: "source_heap \<Rightarrow> action list \<Rightarrow> DebuggerHandler \<Rightarrow> DebuggerHandler option" where
  "run heap [] h = Some h"
| "run heap (a # as) h = (case exec heap a h of None \<Rightarrow> None | Some h' \<Rightarrow> run heap as h')"

text \<open>
  The property of a trace that every call of the multiplexer's \<open>removeBreakpoint\<close> comes
  after the deferred of the same descriptor was resolved.
\<close>

definition removesAfterResolve :: "effect list \<Rightarrow> bool" where
  "removesAfterResolve tr =
     (\<forall>i < length tr. \<forall>n. tr ! i = Call (MuxRemoveBreakpoint n) \<longrightarrow>
        ResolveDeferred n \<in> set (take i tr))"

text \<open>The store's breakpoints, by reference, and the breakpoint events sent so far.\<close>

definition hhBreakpoints :: "DebuggerHandler \<Rightarrow> nat \<Rightarrow> HhBreakpoint" where
  "hhBreakpoints h = mx_breakpoints (dh_connectionMultiplexer h)"

fun isBreakpointEvent :: "effect \<Rightarrow> bool" where
  "isBreakpointEvent (Emit (BreakpointEvent reason bp)) = True"
| "isBreakpointEvent e = False"

definition breakpointEvents :: "DebuggerHandler \<Rightarrow> effect list" where
  "breakpointEvents h = filter isBreakpointEvent (dh_trace h)"

definition muxCalls :: "DebuggerHandler \<Rightarrow> mux_call list" where
  "muxCalls h = concat (map (\<lambda>e. case e of Call c \<Rightarrow> [c] | _ \<Rightarrow> []) (dh_trace h))"



subsection \<open>Invariants of the executions\<close>

text \<open>
  A step is quiet when it adds neither a removal call nor a resolution to the trace and
  leaves every deferred as it is.
\<close>

definition quiet :: "DebuggerHandler \<Rightarrow> DebuggerHandler \<Rightarrow> bool" where
  "quiet h h' =
     ((\<exists>es. dh_trace h' = dh_trace h @ es
          \<and> (\<forall>n. Call (MuxRemoveBreakpoint n) \<notin> set es \<and> ResolveDeferred n \<notin> set es))
      \<and> dh_vsBpDeferred h' = dh_vsBpDeferred h)"

text \<open>
  The trace has every removal after its resolution, and it has the resolution of every
  deferred that is resolved.
\<close>

definition traceInv :: "DebuggerHandler \<Rightarrow> bool" where
  "traceInv h =
     (removesAfterResolve (dh_trace h)
      \<and> (\<forall>n. dh_vsBpDeferred h n = Resolved \<longrightarrow> ResolveDeferred n \<in> set (dh_trace h)))"

text \<open>
  The descriptors stored under a path have different ids, none above the counter.
\<close>

definition idsInv :: "DebuggerHandler \<Rightarrow> bool" where
  "idsInv h =
     (\<forall>path bps. map_of (dh_breakpoints h) path = Some bps \<longrightarrow>
        distinct (map bd_id bps) \<and> (\<forall>bp \<in> set bps. bd_id bp \<le> dh_breakpointId h))"

subsection \<open>Concrete inputs\<close>

text \<open>
  A heap in which the source breakpoint at reference \<open>r\<close> is on line \<open>10 + r\<close>, with no
  condition.
\<close>

definition heap0 :: source_heap where
  "heap0 = (\<lambda>r. \<lparr>sb_line = 10 + int r, sb_condition = None\<rparr>)"

text \<open>
  A breakpoint is set on line 10 of a file and resolved; then the file is synced with no
  breakpoint, and the removal runs.
\<close>

definition setThenRemove :: "action list" where
  "setThenRemove =
     [CallSetBreakpoints ''a.php'' [0], ResumeAfterRemovals 0, SettleStore 0 (Some True),
      ResumeAfterSync 0, CallSetBreakpoints ''a.php'' [], ResumeRemove 0]"

text \<open>
  A multiplexer whose enabled connection stopped at the given line of a file for the
  given reason; the store finds a breakpoint on line 10 only, the one with reference 1,
  and the breakpoint with reference \<open>r\<close> has the chromeId \<open>r\<close>.
\<close>

definition pausedMultiplexer :: "string \<Rightarrow> int \<Rightarrow> ConnectionMultiplexer" where
  "pausedMultiplexer reason line =
     \<lparr>mx_getEnabledConnection =
        Some (Some \<lparr>cn_stopReason = reason,
                     cn_stopBreakpointLocation =
                       Some \<lparr>loc_filename = ''a.php'', loc_lineNumber = line\<rparr>\<rparr>),
      mx_enabledConnectionId = Some 1,
      mx_requestSwitchMessage = None,
      mx_findBreakpoint =
        (\<lambda>filename lineNumber. if filename = ''a.php'' \<and> lineNumber = 10 then Some 1 else None),
      mx_breakpoints = (\<lambda>r. \<lparr>hh_chromeId = r, hh_hitCount = 0\<rparr>)\<rparr>"

text \<open>
  A handler on that multiplexer with two resolved breakpoints, on lines 10 and 20 of
  the file, with the ids 1 and 2.
\<close>

definition pausedHandler :: "string \<Rightarrow> int \<Rightarrow> DebuggerHandler" where
  "pausedHandler reason line =
     (DebuggerHandler_new (pausedMultiplexer reason line))
       \<lparr>dh_breakpointId := 2,
        dh_breakpoints :=
          [(''a.php'',
            [\<lparr>bd_id = 1, bd_path = ''a.php'', bd_line = 10, bd_condition = []\<rparr>,
             \<lparr>bd_id = 2, bd_path = ''a.php'', bd_line = 20, bd_condition = []\<rparr>])],
        dh_vsBp :=
          [1 \<mapsto> \<lparr>bp_verified = True, bp_line = 10, bp_id = 1, bp_nuclide_hitCount = None\<rparr>,
           2 \<mapsto> \<lparr>bp_verified = True, bp_line = 20, bp_id = 2, bp_nuclide_hitCount = None\<rparr>],
        dh_vsBpDeferred := (\<lambda>n. if n = 1 \<or> n = 2 then Resolved else Pending)\<rparr>"

text \<open>A response for an evaluation that threw an Error object.\<close>

definition thrownResponse :: EvaluateOnCallFrameResponse where
  "thrownResponse =
     \<lparr>er_result = Some \<lparr>ro_type = ''object'', ro_subtype = Some ''error'',
                         ro_objectId = Some ''obj1'', ro_value = JUndefined,
                         ro_description = Some ''Error: boom''\<rparr>,
      er_wasThrown = True, er_exceptionDetails = Some ''Uncaught Error: boom''\<rparr>"

section \<open>Properties\<close>

subsection \<open>DebuggerInstance\<close>

lemma sendNuclideMessage_before_dispose:
  assumes "\<not> di_disposed d" and "di_inflight d = []"
  shows "di_rpcSent (handleChromeSocketMessage_resume preProcess translate (sendNuclideMessage message d))
         = di_rpcSent d @ [translate (preProcess message)]"
  using assms
  by (simp add: sendNuclideMessage_def handleChromeSocketMessage_def
        handleChromeSocketMessage_resume_def)

text \<open>
  C10. After \<open>dispose()\<close>, \<open>sendNuclideMessage(message)\<close> does nothing but log the error
  line: for every message and every instance, the result is the disposed instance with
  that line added to the logger; the message is neither put in flight towards the RPC
  service nor given to it.
\<close>

theorem sendNuclideMessage_after_dispose:
  "sendNuclideMessage message (DebuggerInstance_dispose d) =
     (DebuggerInstance_dispose d)
       \<lparr>di_logger := di_logger d @ [(Err, ''sendNuclideMessage after dispose!'', [message])]\<rparr>
   \<and> di_inflight (sendNuclideMessage message (DebuggerInstance_dispose d)) = di_inflight d
   \<and> di_rpcSent (sendNuclideMessage message (DebuggerInstance_dispose d)) = di_rpcSent d"
  by (simp add: sendNuclideMessage_def DebuggerInstance_dispose_def)

subsection \<open>CommandDispatcher\<close>

lemma connectedDispatcher_eq:
  "connectedDispatcher =
     \<lparr>cd_sessionSubscriptions = Some 1, cd_bridgeAdapter = Some \<lparr>ba_calls = []\<rparr>, cd_reported = []\<rparr>"
  by (simp add: connectedDispatcher_def setupNuclideChannel_def setupNuclideChannel_resume_def
        ensureSessionCreated_def CommandDispatcher_new_def)

lemma cleanup_unbinds: "cd_bridgeAdapter (cleanupSessionState connectedDispatcher) = None"
  by (simp add: connectedDispatcher_eq cleanupSessionState_def)

text \<open>
  C6, as the code has it. With no adapter bound, \<open>send\<close> returns at once for every
  argument list: it does not throw, calls no adapter, and leaves the dispatcher as it
  was; in particular nothing is logged or reported.
\<close>

theorem send_unbound_is_noop:
  assumes "cd_bridgeAdapter d = None"
  shows "send args d = (d, None)"
  using assms by (simp add: send_def sendViaNuclideChannel_def)

theorem send_unbound_is_noop_witness:
  "send [JStr ''Continue''] CommandDispatcher_new = (CommandDispatcher_new, None)
   \<and> send [JStr ''Pause''] (cleanupSessionState connectedDispatcher)
       = (cleanupSessionState connectedDispatcher, None)"
  using send_unbound_is_noop [of CommandDispatcher_new "[JStr ''Continue'']"]
    send_unbound_is_noop [of "cleanupSessionState connectedDispatcher" "[JStr ''Pause'']"]
  by (simp add: CommandDispatcher_new_def cleanup_unbinds)

text \<open>
  C6, as the claim states it, fails where it says that the dispatcher logs: a command
  sent to a new dispatcher leaves the list of reported errors empty.
\<close>

theorem send_unbound_logs_counterexample:
  "cd_reported (fst (send [JStr ''Continue''] CommandDispatcher_new)) = []"
  by (simp add: send_def sendViaNuclideChannel_def CommandDispatcher_new_def)

text \<open>
  C7. With an adapter bound, a command whose name (the first argument) is not one of
  the recognized command names is reported once, as not implemented: nothing is
  thrown, the adapter receives no call and stays bound, and the session's
  subscriptions are as before.
\<close>

theorem unknown_command_reported_once:
  assumes "cd_bridgeAdapter d = Some a"
    and "arg args 0 \<notin> JStr ` set recognizedCommands"
  shows "send args d =
           (d\<lparr>cd_reported := cd_reported d @
                 [[Lit ''Command '', Interp (arg args 0), Lit '' is not implemented yet.'']]\<rparr>,
            None)"
  using assms
  by (simp add: send_def sendViaNuclideChannel_def recognizedCommands_def reportError_def)

theorem unknown_command_reported_once_witness:
  "send [JStr ''FooBar''] connectedDispatcher =
     (connectedDispatcher
        \<lparr>cd_reported := [[Lit ''Command '', Interp (JStr ''FooBar''),
                           Lit '' is not implemented yet.'']]\<rparr>,
      None)"
  using unknown_command_reported_once [of connectedDispatcher "\<lparr>ba_calls = []\<rparr>" "[JStr ''FooBar'']"]
  by (simp add: connectedDispatcher_eq recognizedCommands_def arg_def)

text \<open>
  C8, as the code has it. With an adapter bound, \<open>triggerDebuggerAction\<close> with an
  action id that is not one of the recognized ones throws an Error that names the id:
  nothing is reported, the adapter receives no call, and the dispatcher is as before.
\<close>

theorem unknown_action_throws:
  assumes "cd_bridgeAdapter d = Some a"
    and "actionId \<notin> JStr ` set recognizedActions"
  shows "send (JStr ''triggerDebuggerAction'' # actionId # rest) d =
           (d, Some (Error [Lit ''_triggerDebuggerAction: unrecognized actionId: '',
                            Interp actionId]))"
  using assms
  by (simp add: send_def sendViaNuclideChannel_def triggerDebuggerAction_def
        recognizedActions_def arg_def)

theorem unknown_action_throws_witness:
  "send [JStr ''triggerDebuggerAction'', JStr ''debugger.restart''] connectedDispatcher =
     (connectedDispatcher,
      Some (Error [Lit ''_triggerDebuggerAction: unrecognized actionId: '',
                   Interp (JStr ''debugger.restart'')]))"
  using unknown_action_throws [of connectedDispatcher "\<lparr>ba_calls = []\<rparr>"
          "JStr ''debugger.restart''" "[]"]
  by (simp add: connectedDispatcher_eq recognizedActions_def)

text \<open>
  C8, as the claim states it, fails: for the unknown action id \<open>debugger.restart\<close> the
  dispatcher throws, and nothing has been reported.
\<close>

theorem unknown_action_counterexample:
  "snd (send [JStr ''triggerDebuggerAction'', JStr ''debugger.restart''] connectedDispatcher) \<noteq> None
   \<and> cd_reported (fst (send [JStr ''triggerDebuggerAction'', JStr ''debugger.restart'']
                         connectedDispatcher)) = []"
  by (simp add: send_def sendViaNuclideChannel_def triggerDebuggerAction_def arg_def
        connectedDispatcher_eq)

subsection \<open>ExpressionEvaluationManager\<close>

lemma getProperties_registered:
  assumes "em_remoteObjects m objectId = Some (RemoteObjectProxy proxyId)"
  shows "getProperties reqId objectId m = m\<lparr>em_calls := em_calls m @ [RuntimeGetProperties proxyId]\<rparr>"
  using assms by (simp add: getProperties_def getRemoteObjectFromId_def)

lemma addObject_registers:
  "em_remoteObjects (addObject objectId m) objectId = Some (RemoteObjectProxy objectId)"
  by (simp add: addObject_def)

text \<open>
  C4. After \<open>clearPauseStates()\<close>, \<open>getProperties(id, objectId)\<close> reports that the
  object id cannot be found, for every object id (so for every one registered before):
  the result is the cleared manager with that one report added; no event is raised
  and no request is given to the runtime dispatcher, so no properties are returned.
\<close>

theorem getProperties_after_clearPauseStates:
  "getProperties reqId objectId (clearPauseStates m) =
     (clearPauseStates m)
       \<lparr>em_reported := em_reported m @
          [(ReportError, ''Cannot find object id '' @ objectId @ '' for getProperties()'')]\<rparr>
   \<and> em_events (getProperties reqId objectId (clearPauseStates m)) = em_events m
   \<and> em_calls (getProperties reqId objectId (clearPauseStates m)) = em_calls m"
  by (simp add: getProperties_def clearPauseStates_def clear_def getRemoteObjectFromId_def
        report_def)

text \<open>
  C5, as the code has it. For a response with \<open>wasThrown\<close> (and no protocol error),
  the callback raises one \<open>ExpressionEvaluationResponse\<close> whose error field is the
  response's \<open>exceptionDetails\<close>, and reports nothing. The result's object is
  registered exactly when the result has an \<open>objectId\<close>, thrown or not.
\<close>

theorem thrown_response_event:
  assumes "er_wasThrown response"
  shows "em_events (evaluateOnCallFrame_callback transactionId expression objectGroup None response m)
           = em_events m @ [ExpressionEvaluationResponse (er_result response)
                              (er_exceptionDetails response) expression transactionId]
       \<and> em_reported (evaluateOnCallFrame_callback transactionId expression objectGroup None response m)
           = em_reported m
       \<and> em_remoteObjects
           (evaluateOnCallFrame_callback transactionId expression objectGroup None response m)
           = (case er_result response of
                None \<Rightarrow> em_remoteObjects m
              | Some result \<Rightarrow>
                  (case ro_objectId result of
                     None \<Rightarrow> em_remoteObjects m
                   | Some objectId \<Rightarrow>
                       (em_remoteObjects m)(objectId \<mapsto> RemoteObjectProxy objectId)))"
  using assms
  by (simp add: evaluateOnCallFrame_callback_def raiseIPCEvent_def addObject_def
        split: option.splits)

theorem thrown_response_event_witness:
  "em_events (evaluateOnCallFrame_callback 1 ''x+1'' ''watch-group'' None
                (thrownResponse\<lparr>er_result := None\<rparr>) ExpressionEvaluationManager_new)
     = [ExpressionEvaluationResponse None (Some ''Uncaught Error: boom'') ''x+1'' 1]
   \<and> em_remoteObjects (evaluateOnCallFrame_callback 1 ''x+1'' ''watch-group'' None
                         (thrownResponse\<lparr>er_result := None\<rparr>) ExpressionEvaluationManager_new)
     = Map.empty"
  using thrown_response_event [of "thrownResponse\<lparr>er_result := None\<rparr>" 1 "''x+1''"
          "''watch-group''" ExpressionEvaluationManager_new]
  by (simp add: thrownResponse_def ExpressionEvaluationManager_new_def)

text \<open>
  C5, as the claim states it, fails where it says that no object is registered: for a
  thrown response whose result is the Error object \<open>obj1\<close>, that object is registered.
\<close>

theorem thrown_response_registers_counterexample:
  "er_wasThrown thrownResponse
   \<and> em_remoteObjects
       (evaluateOnCallFrame_callback 1 ''x+1'' ''watch-group'' None thrownResponse
          ExpressionEvaluationManager_new) ''obj1''
     = Some (RemoteObjectProxy ''obj1'')"
  by (simp add: evaluateOnCallFrame_callback_def raiseIPCEvent_def addObject_def
        thrownResponse_def ExpressionEvaluationManager_new_def)

subsection \<open>DebuggerHandler: the End notification\<close>



lemma fold_disposeSubscription:
  "fold disposeSubscription ss h
     = h\<lparr>dh_trace := dh_trace h @ map (\<lambda>s. Call MuxDispose)
                                      (filter (\<lambda>s. s = MultiplexerDisposable) ss)\<rparr>"
proof (induction ss arbitrary: h)
  case Nil
  show ?case by simp
next
  case (Cons s ss)
  show ?case by (cases s) (simp_all add: Cons.IH does_def)
qed




lemma muxCalls_referenceFor: "muxCalls (snd (referenceFor objectId h)) = muxCalls h"
  by (simp add: referenceFor_def createHandle_def muxCalls_def split: option.splits)














subsection \<open>DebuggerHandler: hit counts\<close>

lemma findDescriptor_id: "findDescriptor bpId h = Some d \<Longrightarrow> bd_id d = bpId"
  by (auto simp add: findDescriptor_def find_Some_iff)

lemma findDescriptor_cong:
  "dh_breakpoints h' = dh_breakpoints h \<Longrightarrow> findDescriptor bpId h' = findDescriptor bpId h"
  by (simp add: findDescriptor_def)

lemma getBreakpointById_cong:
  "dh_breakpoints h' = dh_breakpoints h \<Longrightarrow> dh_vsBp h' = dh_vsBp h \<Longrightarrow>
   getBreakpointById bpId h' = getBreakpointById bpId h"
  by (simp add: getBreakpointById_def findDescriptor_def split: option.splits)

lemma getBreakpointById_key:
  "getBreakpointById bpId h = (case findDescriptor bpId h of None \<Rightarrow> None | Some d \<Rightarrow> dh_vsBp h bpId)"
  by (auto simp add: getBreakpointById_def split: option.splits dest: findDescriptor_id)

lemma setHitCount_found:
  assumes "getBreakpointById bpId h = Some b"
  shows "setHitCount bpId n h =
           does (Emit (BreakpointEvent ''update'' (b\<lparr>bp_nuclide_hitCount := Some n\<rparr>)))
             (h\<lparr>dh_vsBp := (dh_vsBp h)(bpId \<mapsto> b\<lparr>bp_nuclide_hitCount := Some n\<rparr>)\<rparr>)"
proof -
  from assms obtain d where d: "findDescriptor bpId h = Some d" and b: "dh_vsBp h (bd_id d) = Some b"
    by (auto simp add: getBreakpointById_def split: option.splits)
  from d have "bd_id d = bpId" by (rule findDescriptor_id)
  with d b show ?thesis by (simp add: setHitCount_def Let_def)
qed

lemma updateBreakpointHitCount_other:
  assumes "\<forall>c. mx_getEnabledConnection (dh_connectionMultiplexer h) = Some (Some c) \<longrightarrow>
             cn_stopReason c \<noteq> BREAKPOINT \<or> cn_stopBreakpointLocation c = None"
  shows "updateBreakpointHitCount h = h"
  using assms by (auto simp add: updateBreakpointHitCount_def Let_def split: option.splits)

lemma updateBreakpointHitCount_not_found:
  assumes "mx_getEnabledConnection (dh_connectionMultiplexer h) = Some (Some c)"
    and "cn_stopReason c = BREAKPOINT"
    and "cn_stopBreakpointLocation c = Some loc"
    and "mx_findBreakpoint (dh_connectionMultiplexer h) (loc_filename loc) (loc_lineNumber loc) = None"
  shows "updateBreakpointHitCount h = h"
  using assms by (simp add: updateBreakpointHitCount_def Let_def)

lemma updateBreakpointHitCount_found:
  assumes "mx_getEnabledConnection (dh_connectionMultiplexer h) = Some (Some c)"
    and "cn_stopReason c = BREAKPOINT"
    and "cn_stopBreakpointLocation c = Some loc"
    and "mx_findBreakpoint (dh_connectionMultiplexer h) (loc_filename loc) (loc_lineNumber loc)
         = Some r"
  shows "hhBreakpoints (updateBreakpointHitCount h)
           = (hhBreakpoints h)(r := (hhBreakpoints h r)\<lparr>hh_hitCount := hh_hitCount (hhBreakpoints h r) + 1\<rparr>)"
    and "dh_vsBp (updateBreakpointHitCount h)
           = (case getBreakpointById (hh_chromeId (hhBreakpoints h r)) h of
                None \<Rightarrow> dh_vsBp h
              | Some b \<Rightarrow>
                  (dh_vsBp h)(hh_chromeId (hhBreakpoints h r) \<mapsto>
                     b\<lparr>bp_nuclide_hitCount := Some (hh_hitCount (hhBreakpoints h r) + 1)\<rparr>))"
    and "breakpointEvents (updateBreakpointHitCount h)
           = breakpointEvents h
             @ (case getBreakpointById (hh_chromeId (hhBreakpoints h r)) h of
                  None \<Rightarrow> []
                | Some b \<Rightarrow>
                    [Emit (BreakpointEvent ''update''
                             (b\<lparr>bp_nuclide_hitCount := Some (hh_hitCount (hhBreakpoints h r) + 1)\<rparr>))])"
proof -
  let ?mux = "dh_connectionMultiplexer h"
  let ?hhBp = "(mx_breakpoints ?mux r)\<lparr>hh_hitCount := hh_hitCount (mx_breakpoints ?mux r) + 1\<rparr>"
  let ?h1 = "h\<lparr>dh_connectionMultiplexer := ?mux\<lparr>mx_breakpoints := (mx_breakpoints ?mux)(r := ?hhBp)\<rparr>\<rparr>"
  let ?cid = "hh_chromeId (mx_breakpoints ?mux r)"
  have same: "getBreakpointById ?cid ?h1 = getBreakpointById ?cid h"
    by (rule getBreakpointById_cong) simp_all
  have upd: "updateBreakpointHitCount h
             = (case getBreakpointById ?cid h of
                  None \<Rightarrow> ?h1
                | Some b \<Rightarrow> setHitCount ?cid (hh_hitCount (mx_breakpoints ?mux r) + 1) ?h1)"
  proof -
    have "updateBreakpointHitCount h
          = (case getBreakpointById ?cid ?h1 of
               None \<Rightarrow> ?h1
             | Some b \<Rightarrow> setHitCount ?cid (hh_hitCount (mx_breakpoints ?mux r) + 1) ?h1)"
      using assms by (simp add: updateBreakpointHitCount_def Let_def cong: option.case_cong)
    then show ?thesis by (simp only: same)
  qed
  show "hhBreakpoints (updateBreakpointHitCount h)
           = (hhBreakpoints h)(r := (hhBreakpoints h r)\<lparr>hh_hitCount := hh_hitCount (hhBreakpoints h r) + 1\<rparr>)"
  proof (cases "getBreakpointById ?cid h")
    case None
    then show ?thesis by (simp add: upd hhBreakpoints_def)
  next
    case (Some b)
    with same have "getBreakpointById ?cid ?h1 = Some b" by simp
    from setHitCount_found [OF this] Some show ?thesis
      by (simp add: upd hhBreakpoints_def does_def)
  qed
  show "dh_vsBp (updateBreakpointHitCount h)
           = (case getBreakpointById (hh_chromeId (hhBreakpoints h r)) h of
                None \<Rightarrow> dh_vsBp h
              | Some b \<Rightarrow>
                  (dh_vsBp h)(hh_chromeId (hhBreakpoints h r) \<mapsto>
                     b\<lparr>bp_nuclide_hitCount := Some (hh_hitCount (hhBreakpoints h r) + 1)\<rparr>))"
  proof (cases "getBreakpointById ?cid h")
    case None
    then show ?thesis by (simp add: upd hhBreakpoints_def)
  next
    case (Some b)
    with same have "getBreakpointById ?cid ?h1 = Some b" by simp
    from setHitCount_found [OF this] Some show ?thesis
      by (simp add: upd hhBreakpoints_def does_def)
  qed
  show "breakpointEvents (updateBreakpointHitCount h)
           = breakpointEvents h
             @ (case getBreakpointById (hh_chromeId (hhBreakpoints h r)) h of
                  None \<Rightarrow> []
                | Some b \<Rightarrow>
                    [Emit (BreakpointEvent ''update''
                             (b\<lparr>bp_nuclide_hitCount := Some (hh_hitCount (hhBreakpoints h r) + 1)\<rparr>))])"
  proof (cases "getBreakpointById ?cid h")
    case None
    then show ?thesis by (simp add: upd hhBreakpoints_def breakpointEvents_def)
  next
    case (Some b)
    with same have "getBreakpointById ?cid ?h1 = Some b" by simp
    from setHitCount_found [OF this] Some show ?thesis
      by (simp add: upd hhBreakpoints_def does_def breakpointEvents_def)
  qed
qed

lemma sendPausedMessage_keeps:
  "hhBreakpoints (fst (sendPausedMessage h)) = hhBreakpoints h"
  "dh_vsBp (fst (sendPausedMessage h)) = dh_vsBp h"
  "breakpointEvents (fst (sendPausedMessage h)) = breakpointEvents h"
  by (simp_all add: sendPausedMessage_def Let_def hhBreakpoints_def breakpointEvents_def does_def
        split: option.splits)

lemma log_keeps:
  "hhBreakpoints (does (Log l e) h) = hhBreakpoints h"
  "dh_vsBp (does (Log l e) h) = dh_vsBp h"
  "breakpointEvents (does (Log l e) h) = breakpointEvents h"
  "dh_connectionMultiplexer (does (Log l e) h) = dh_connectionMultiplexer h"
  "getBreakpointById bpId (does (Log l e) h) = getBreakpointById bpId h"
  by (simp_all add: hhBreakpoints_def breakpointEvents_def does_def getBreakpointById_def
        findDescriptor_def cong: option.case_cong)

lemma paused_step:
  assumes "status = AllConnectionsPaused \<or> status = SingleConnectionPaused"
  shows "fst (onStatusChanged status h)
         = fst (sendPausedMessage (updateBreakpointHitCount (does (Log Debug (LogSendingStatus status)) h)))"
  using assms by (auto simp add: onStatusChanged_def Let_def)

text \<open>
  C9. For a pause notification (either paused status): when the enabled connection, if
  there is one, stopped for a reason other than \<open>BREAKPOINT\<close> or has no stop location,
  and also when it stopped on a breakpoint but the store finds none at the stop
  location, every breakpoint of the store and every breakpoint sent to the client is
  as before (so is every hit count), and no breakpoint event is sent. When it stopped
  on a breakpoint and the store finds the breakpoint \<open>r\<close> at the stop location, the
  store differs from before only in \<open>r\<close>, whose hit count is one more; of the
  breakpoints sent to the client only the one with the chromeId of \<open>r\<close>, if the handler
  has it, is changed, its hit count being set to the new count of \<open>r\<close>, and the only
  breakpoint event sent is the update of that one.
\<close>

theorem hit_count_bookkeeping:
  assumes "status = AllConnectionsPaused \<or> status = SingleConnectionPaused"
  shows "((\<forall>c. mx_getEnabledConnection (dh_connectionMultiplexer h) = Some (Some c) \<longrightarrow>
             cn_stopReason c \<noteq> BREAKPOINT \<or> cn_stopBreakpointLocation c = None) \<longrightarrow>
          hhBreakpoints (fst (onStatusChanged status h)) = hhBreakpoints h
          \<and> dh_vsBp (fst (onStatusChanged status h)) = dh_vsBp h
          \<and> breakpointEvents (fst (onStatusChanged status h)) = breakpointEvents h)
       \<and> (\<forall>c loc.
            mx_getEnabledConnection (dh_connectionMultiplexer h) = Some (Some c)
            \<and> cn_stopReason c = BREAKPOINT \<and> cn_stopBreakpointLocation c = Some loc
            \<and> mx_findBreakpoint (dh_connectionMultiplexer h) (loc_filename loc)
                  (loc_lineNumber loc) = None
            \<longrightarrow> hhBreakpoints (fst (onStatusChanged status h)) = hhBreakpoints h
              \<and> dh_vsBp (fst (onStatusChanged status h)) = dh_vsBp h
              \<and> breakpointEvents (fst (onStatusChanged status h)) = breakpointEvents h)
       \<and> (\<forall>c loc r.
            mx_getEnabledConnection (dh_connectionMultiplexer h) = Some (Some c)
            \<and> cn_stopReason c = BREAKPOINT \<and> cn_stopBreakpointLocation c = Some loc
            \<and> mx_findBreakpoint (dh_connectionMultiplexer h) (loc_filename loc)
                  (loc_lineNumber loc) = Some r
            \<longrightarrow> hhBreakpoints (fst (onStatusChanged status h))
                  = (hhBreakpoints h)
                      (r := (hhBreakpoints h r)\<lparr>hh_hitCount := hh_hitCount (hhBreakpoints h r) + 1\<rparr>)
              \<and> dh_vsBp (fst (onStatusChanged status h))
                  = (case getBreakpointById (hh_chromeId (hhBreakpoints h r)) h of
                       None \<Rightarrow> dh_vsBp h
                     | Some b \<Rightarrow>
                         (dh_vsBp h)(hh_chromeId (hhBreakpoints h r) \<mapsto>
                            b\<lparr>bp_nuclide_hitCount := Some (hh_hitCount (hhBreakpoints h r) + 1)\<rparr>))
              \<and> breakpointEvents (fst (onStatusChanged status h))
                  = breakpointEvents h
                    @ (case getBreakpointById (hh_chromeId (hhBreakpoints h r)) h of
                         None \<Rightarrow> []
                       | Some b \<Rightarrow>
                           [Emit (BreakpointEvent ''update''
                              (b\<lparr>bp_nuclide_hitCount :=
                                   Some (hh_hitCount (hhBreakpoints h r) + 1)\<rparr>))]))"
proof (intro conjI allI impI)
  let ?h1 = "does (Log Debug (LogSendingStatus status)) h"
  note step = paused_step [OF assms, of h]
  {
    assume "\<forall>c. mx_getEnabledConnection (dh_connectionMultiplexer h) = Some (Some c) \<longrightarrow>
             cn_stopReason c \<noteq> BREAKPOINT \<or> cn_stopBreakpointLocation c = None"
    then have same: "updateBreakpointHitCount ?h1 = ?h1"
      by (intro updateBreakpointHitCount_other) (simp add: log_keeps)
    show "hhBreakpoints (fst (onStatusChanged status h)) = hhBreakpoints h"
      and "dh_vsBp (fst (onStatusChanged status h)) = dh_vsBp h"
      and "breakpointEvents (fst (onStatusChanged status h)) = breakpointEvents h"
      by (simp_all add: step same sendPausedMessage_keeps log_keeps)
  }
  {
    fix c loc
    assume "mx_getEnabledConnection (dh_connectionMultiplexer h) = Some (Some c)
            \<and> cn_stopReason c = BREAKPOINT \<and> cn_stopBreakpointLocation c = Some loc
            \<and> mx_findBreakpoint (dh_connectionMultiplexer h) (loc_filename loc)
                  (loc_lineNumber loc) = None"
    then have same: "updateBreakpointHitCount ?h1 = ?h1"
      by (intro updateBreakpointHitCount_not_found [of ?h1 c loc]) (simp_all add: log_keeps)
    show "hhBreakpoints (fst (onStatusChanged status h)) = hhBreakpoints h"
      and "dh_vsBp (fst (onStatusChanged status h)) = dh_vsBp h"
      and "breakpointEvents (fst (onStatusChanged status h)) = breakpointEvents h"
      by (simp_all add: step same sendPausedMessage_keeps log_keeps)
  }
  {
    fix c loc r
    assume "mx_getEnabledConnection (dh_connectionMultiplexer h) = Some (Some c)
            \<and> cn_stopReason c = BREAKPOINT \<and> cn_stopBreakpointLocation c = Some loc
            \<and> mx_findBreakpoint (dh_connectionMultiplexer h) (loc_filename loc)
                  (loc_lineNumber loc) = Some r"
    then have found: "mx_getEnabledConnection (dh_connectionMultiplexer ?h1) = Some (Some c)"
      "cn_stopReason c = BREAKPOINT" "cn_stopBreakpointLocation c = Some loc"
      "mx_findBreakpoint (dh_connectionMultiplexer ?h1) (loc_filename loc) (loc_lineNumber loc) = Some r"
      by (simp_all add: log_keeps)
    note u = updateBreakpointHitCount_found [OF found]
    show "hhBreakpoints (fst (onStatusChanged status h))
                  = (hhBreakpoints h)
                      (r := (hhBreakpoints h r)\<lparr>hh_hitCount := hh_hitCount (hhBreakpoints h r) + 1\<rparr>)"
      by (simp add: step sendPausedMessage_keeps u(1) log_keeps cong: option.case_cong)
    show "dh_vsBp (fst (onStatusChanged status h))
                  = (case getBreakpointById (hh_chromeId (hhBreakpoints h r)) h of
                       None \<Rightarrow> dh_vsBp h
                     | Some b \<Rightarrow>
                         (dh_vsBp h)(hh_chromeId (hhBreakpoints h r) \<mapsto>
                            b\<lparr>bp_nuclide_hitCount := Some (hh_hitCount (hhBreakpoints h r) + 1)\<rparr>))"
      by (simp add: step sendPausedMessage_keeps u(2) log_keeps cong: option.case_cong)
    show "breakpointEvents (fst (onStatusChanged status h))
                  = breakpointEvents h
                    @ (case getBreakpointById (hh_chromeId (hhBreakpoints h r)) h of
                         None \<Rightarrow> []
                       | Some b \<Rightarrow>
                           [Emit (BreakpointEvent ''update''
                              (b\<lparr>bp_nuclide_hitCount :=
                                   Some (hh_hitCount (hhBreakpoints h r) + 1)\<rparr>))])"
      by (simp add: step sendPausedMessage_keeps u(3) log_keeps cong: option.case_cong)
  }
qed

theorem hit_count_bookkeeping_witness:
  "hhBreakpoints (fst (onStatusChanged SingleConnectionPaused (pausedHandler ''step'' 10)))
     = hhBreakpoints (pausedHandler ''step'' 10)
   \<and> dh_vsBp (fst (onStatusChanged SingleConnectionPaused (pausedHandler ''step'' 10)))
     = dh_vsBp (pausedHandler ''step'' 10)
   \<and> breakpointEvents (fst (onStatusChanged SingleConnectionPaused (pausedHandler ''step'' 10)))
     = []
   \<and> hhBreakpoints (fst (onStatusChanged SingleConnectionPaused (pausedHandler ''breakpoint'' 11)))
     = hhBreakpoints (pausedHandler ''breakpoint'' 11)
   \<and> breakpointEvents (fst (onStatusChanged SingleConnectionPaused (pausedHandler ''breakpoint'' 11)))
     = []
   \<and> hh_hitCount (hhBreakpoints
        (fst (onStatusChanged AllConnectionsPaused (pausedHandler ''breakpoint'' 10))) 1) = 1
   \<and> hh_hitCount (hhBreakpoints
        (fst (onStatusChanged AllConnectionsPaused (pausedHandler ''breakpoint'' 10))) 2) = 0
   \<and> dh_vsBp (fst (onStatusChanged AllConnectionsPaused (pausedHandler ''breakpoint'' 10))) 1
     = Some \<lparr>bp_verified = True, bp_line = 10, bp_id = 1, bp_nuclide_hitCount = Some 1\<rparr>
   \<and> dh_vsBp (fst (onStatusChanged AllConnectionsPaused (pausedHandler ''breakpoint'' 10))) 2
     = Some \<lparr>bp_verified = True, bp_line = 20, bp_id = 2, bp_nuclide_hitCount = None\<rparr>
   \<and> breakpointEvents (fst (onStatusChanged AllConnectionsPaused (pausedHandler ''breakpoint'' 10)))
     = [Emit (BreakpointEvent ''update''
          \<lparr>bp_verified = True, bp_line = 10, bp_id = 1, bp_nuclide_hitCount = Some 1\<rparr>)]"
  using hit_count_bookkeeping [of SingleConnectionPaused "pausedHandler ''step'' 10"]
    hit_count_bookkeeping [of SingleConnectionPaused "pausedHandler ''breakpoint'' 11"]
    hit_count_bookkeeping [of AllConnectionsPaused "pausedHandler ''breakpoint'' 10"]
  by (simp add: pausedHandler_def pausedMultiplexer_def DebuggerHandler_new_def BREAKPOINT_def
        hhBreakpoints_def breakpointEvents_def getBreakpointById_def findDescriptor_def)

subsection \<open>DebuggerHandler: removal waits for the resolution\<close>

lemma removesAfterResolve_append:
  assumes "removesAfterResolve tr"
    and "\<forall>n. Call (MuxRemoveBreakpoint n) \<in> set es \<longrightarrow> ResolveDeferred n \<in> set tr"
  shows "removesAfterResolve (tr @ es)"
  unfolding removesAfterResolve_def
proof (intro allI impI)
  fix i n
  assume i: "i < length (tr @ es)" and at: "(tr @ es) ! i = Call (MuxRemoveBreakpoint n)"
  show "ResolveDeferred n \<in> set (take i (tr @ es))"
  proof (cases "i < length tr")
    case True
    with at have "tr ! i = Call (MuxRemoveBreakpoint n)" by (simp add: nth_append)
    with assms(1) True have "ResolveDeferred n \<in> set (take i tr)"
      by (simp add: removesAfterResolve_def)
    with True show ?thesis by simp
  next
    case False
    with i at have "es ! (i - length tr) = Call (MuxRemoveBreakpoint n)" and "i - length tr < length es"
      by (simp_all add: nth_append)
    then have "Call (MuxRemoveBreakpoint n) \<in> set es" by (metis nth_mem)
    with assms(2) have "ResolveDeferred n \<in> set tr" by simp
    with False show ?thesis by simp
  qed
qed

lemma quiet_refl: "quiet h h"
  by (simp add: quiet_def)

lemma quiet_trans:
  assumes "quiet h h1" and "quiet h1 h2"
  shows "quiet h h2"
proof -
  from assms(1) obtain es where 1: "dh_trace h1 = dh_trace h @ es"
    "\<forall>n. Call (MuxRemoveBreakpoint n) \<notin> set es \<and> ResolveDeferred n \<notin> set es"
    "dh_vsBpDeferred h1 = dh_vsBpDeferred h"
    by (auto simp add: quiet_def)
  from assms(2) obtain es' where 2: "dh_trace h2 = dh_trace h1 @ es'"
    "\<forall>n. Call (MuxRemoveBreakpoint n) \<notin> set es' \<and> ResolveDeferred n \<notin> set es'"
    "dh_vsBpDeferred h2 = dh_vsBpDeferred h1"
    by (auto simp add: quiet_def)
  from 1 2 have "dh_trace h2 = dh_trace h @ (es @ es')"
    and "\<forall>n. Call (MuxRemoveBreakpoint n) \<notin> set (es @ es') \<and> ResolveDeferred n \<notin> set (es @ es')"
    and "dh_vsBpDeferred h2 = dh_vsBpDeferred h"
    by simp_all
  then show ?thesis
    unfolding quiet_def by blast
qed

lemma quiet_traceInv:
  assumes "quiet h h'" and "traceInv h"
  shows "traceInv h'"
proof -
  from assms(1) obtain es where tr: "dh_trace h' = dh_trace h @ es"
    and no: "\<forall>n. Call (MuxRemoveBreakpoint n) \<notin> set es \<and> ResolveDeferred n \<notin> set es"
    and df: "dh_vsBpDeferred h' = dh_vsBpDeferred h"
    by (auto simp add: quiet_def)
  from assms(2) no have "removesAfterResolve (dh_trace h @ es)"
    by (intro removesAfterResolve_append) (simp_all add: traceInv_def)
  with assms(2) tr df show ?thesis by (simp add: traceInv_def)
qed

lemma quiet_does:
  "(\<forall>n. e \<noteq> Call (MuxRemoveBreakpoint n) \<and> e \<noteq> ResolveDeferred n) \<Longrightarrow> quiet h (does e h)"
  by (auto simp add: quiet_def does_def)

lemma quiet_pause: "quiet h (pause h)"
  by (simp add: pause_def quiet_does)

lemma quiet_sendContinuationCommand: "quiet h (sendContinuationCommand c h)"
  unfolding sendContinuationCommand_def
  by (rule quiet_trans [OF quiet_does quiet_does]) simp_all

lemma quiet_endSession: "quiet h (endSession h)"
  by (auto simp add: endSession_def disposeSubscriptions_def fold_disposeSubscription quiet_def
        does_def)

lemma quiet_setHitCount: "quiet h (setHitCount b n h)"
  by (simp add: setHitCount_def quiet_def does_def Let_def split: option.splits)

lemma quiet_updateBreakpointHitCount: "quiet h (updateBreakpointHitCount h)"
proof -
  have upd: "quiet h (h\<lparr>dh_connectionMultiplexer := m\<rparr>)" for m
    by (simp add: quiet_def)
  show ?thesis
    unfolding updateBreakpointHitCount_def Let_def
    by (auto split: option.splits intro: quiet_refl upd quiet_trans [OF upd quiet_setHitCount])
qed

lemma quiet_sendPausedMessage: "quiet h (fst (sendPausedMessage h))"
  by (simp add: sendPausedMessage_def quiet_def does_def Let_def split: option.splits)

lemma quiet_onStatusChanged: "quiet h (fst (onStatusChanged status h))"
proof -
  have l: "quiet h (does (Log Debug (LogSendingStatus status)) h)"
    by (simp add: quiet_does)
  show ?thesis
    unfolding onStatusChanged_def Let_def
    by (cases status)
       (auto intro: quiet_trans [OF l] quiet_trans [OF quiet_updateBreakpointHitCount quiet_sendPausedMessage]
          quiet_endSession quiet_does)
qed

lemma fold_removeBreakpoint:
  "fold removeBreakpoint ds h = h\<lparr>dh_removals := dh_removals h @ map (\<lambda>d. (bd_id d, AwaitDeferred)) ds\<rparr>"
  by (induction ds arbitrary: h) (simp_all add: removeBreakpoint_def)

lemma quiet_removeBreakpoint: "quiet h (removeBreakpoint d h)"
  by (simp add: removeBreakpoint_def quiet_def)

lemma quiet_setBreakpointFromDesciptior: "quiet h (setBreakpointFromDesciptior d h)"
  by (simp add: setBreakpointFromDesciptior_def quiet_def does_def)

lemma quiet_fold_setBreakpointFromDesciptior: "quiet h (fold setBreakpointFromDesciptior ds h)"
proof (induction ds arbitrary: h)
  case Nil
  show ?case by (simp add: quiet_refl)
next
  case (Cons d ds)
  show ?case
    using quiet_trans [OF quiet_setBreakpointFromDesciptior Cons.IH] by simp
qed

lemma quiet_setFramePhase: "quiet h (setFramePhase c ph h)"
  by (simp add: setFramePhase_def quiet_def)

lemma quiet_afterRemovals:
  "setBreakpoints_afterRemovals c h = Some h' \<Longrightarrow> quiet h h'"
  by (auto simp add: setBreakpoints_afterRemovals_def Let_def split: if_splits
        intro: quiet_setFramePhase quiet_trans [OF quiet_fold_setBreakpointFromDesciptior quiet_setFramePhase])

lemma quiet_afterSync:
  "setBreakpoints_afterSync c h = Some h' \<Longrightarrow> quiet h h'"
  by (auto simp add: setBreakpoints_afterSync_def Let_def split: if_splits
        intro: quiet_setFramePhase quiet_trans [OF quiet_does quiet_setFramePhase])

lemma quiet_removeBreakpoint_settled:
  "removeBreakpoint_settled k ok h = Some h' \<Longrightarrow> quiet h h'"
  by (auto simp add: removeBreakpoint_settled_def quiet_def split: if_splits)

lemma traceInv_setBreakpoints:
  assumes "traceInv h"
  shows "traceInv (setBreakpoints heap path bpSources h)"
proof -
  have tr: "dh_trace (setBreakpoints heap path bpSources h) = dh_trace h"
    by (simp add: setBreakpoints_def Let_def fold_removeBreakpoint)
  have df: "dh_vsBpDeferred (setBreakpoints heap path bpSources h) n = Resolved
            \<Longrightarrow> dh_vsBpDeferred h n = Resolved" for n
    by (simp add: setBreakpoints_def Let_def fold_removeBreakpoint split: if_splits)
  from assms tr df show ?thesis by (auto simp add: traceInv_def)
qed

lemma traceInv_removeBreakpoint_resume:
  assumes "traceInv h" and "removeBreakpoint_resume k h = Some h'"
  shows "traceInv h'"
proof -
  let ?n = "fst (dh_removals h ! k)"
  from assms(2) have res: "dh_vsBpDeferred h ?n = Resolved"
    and h': "h' = (does (Call (MuxRemoveBreakpoint ?n)) h)
                    \<lparr>dh_removals := (dh_removals h)[k := (?n, AwaitMuxRemove)]\<rparr>"
    by (auto simp add: removeBreakpoint_resume_def split: if_splits)
  from assms(1) res have "ResolveDeferred ?n \<in> set (dh_trace h)"
    by (simp add: traceInv_def)
  with assms(1) have "removesAfterResolve (dh_trace h @ [Call (MuxRemoveBreakpoint ?n)])"
    by (intro removesAfterResolve_append) (simp_all add: traceInv_def)
  with assms(1) show ?thesis
    by (simp add: h' traceInv_def does_def)
qed

lemma traceInv_store_settled:
  assumes "traceInv h" and "setBreakpointFromDesciptior_settled k outcome h = Some h'"
  shows "traceInv h'"
proof (cases outcome)
  case None
  with assms(2) have "quiet h h'"
    by (auto simp add: setBreakpointFromDesciptior_settled_def quiet_def Let_def split: if_splits)
  then show ?thesis using assms(1) by (rule quiet_traceInv)
next
  case (Some resolved)
  let ?n = "bd_id (fst (dh_setting h ! k))"
  from assms(2) Some have tr: "dh_trace h' = dh_trace h @ [ResolveDeferred ?n]"
    and df: "dh_vsBpDeferred h' = (dh_vsBpDeferred h)(?n := Resolved)"
    by (auto simp add: setBreakpointFromDesciptior_settled_def Let_def does_def split: if_splits)
  from assms(1) have "removesAfterResolve (dh_trace h @ [ResolveDeferred ?n])"
    by (intro removesAfterResolve_append) (simp_all add: traceInv_def)
  with assms(1) show ?thesis
    by (simp add: tr df traceInv_def)
qed

lemma traceInv_exec:
  assumes "traceInv h" and "exec heap a h = Some h'"
  shows "traceInv h'"
proof (cases a)
  case (CallSetBreakpoints path bpSources)
  with assms show ?thesis by (auto intro: traceInv_setBreakpoints)
next
  case (CallRemoveBreakpoint d)
  with assms show ?thesis by (auto intro: quiet_traceInv [OF quiet_removeBreakpoint])
next
  case CallPause
  with assms show ?thesis by (auto intro: quiet_traceInv [OF quiet_pause])
next
  case (CallStep c)
  with assms show ?thesis by (auto intro: quiet_traceInv [OF quiet_sendContinuationCommand])
next
  case (Notify status)
  with assms show ?thesis by (auto intro: quiet_traceInv [OF quiet_onStatusChanged])
next
  case (MuxShows mux)
  with assms show ?thesis by (auto simp add: traceInv_def)
next
  case (ResumeRemove k)
  with assms show ?thesis by (auto intro: traceInv_removeBreakpoint_resume)
next
  case (SettleRemove k ok)
  with assms show ?thesis by (auto intro: quiet_traceInv [OF quiet_removeBreakpoint_settled])
next
  case (SettleStore k outcome)
  with assms show ?thesis by (auto intro: traceInv_store_settled)
next
  case (ResumeAfterRemovals c)
  with assms show ?thesis by (auto intro: quiet_traceInv [OF quiet_afterRemovals])
next
  case (ResumeAfterSync c)
  with assms show ?thesis by (auto intro: quiet_traceInv [OF quiet_afterSync])
qed

lemma traceInv_run:
  "traceInv h \<Longrightarrow> run heap acts h = Some h' \<Longrightarrow> traceInv h'"
proof (induction acts arbitrary: h)
  case Nil
  then show ?case by simp
next
  case (Cons a acts)
  then show ?case
    by (auto split: option.splits dest: traceInv_exec)
qed

lemma traceInv_new: "traceInv (DebuggerHandler_new mux)"
  by (simp add: traceInv_def DebuggerHandler_new_def removesAfterResolve_def)

text \<open>
  C3. In every execution of a new handler (calls of \<open>setBreakpoints\<close>, direct calls of
  \<open>_removeBreakpoint\<close>, commands, notifications and continuations, in any enabled order),
  each call of the multiplexer's \<open>removeBreakpoint\<close> for a descriptor comes later in
  the trace than the resolution of that descriptor's \<open>vsBpDeferred\<close>.
\<close>

theorem remove_only_after_resolution:
  assumes "run heap acts (DebuggerHandler_new mux) = Some h"
    and "i < length (dh_trace h)"
    and "dh_trace h ! i = Call (MuxRemoveBreakpoint n)"
  shows "ResolveDeferred n \<in> set (take i (dh_trace h))"
proof -
  from traceInv_new assms(1) have "traceInv h" by (rule traceInv_run)
  with assms(2,3) show ?thesis
    by (simp add: traceInv_def removesAfterResolve_def)
qed

lemmas handler_defs =
  DebuggerHandler_new_def setBreakpoints_def newBreakpoints_def existingBreakpoints_def
  addBpSources_def toRemoveBpDesciptiors_def setDifference_def jsSet_def removeBreakpoint_def
  removeBreakpoint_resume_def removeBreakpoint_settled_def setBreakpointFromDesciptior_def
  setBreakpointFromDesciptior_settled_def setBreakpoints_afterRemovals_def
  setBreakpoints_afterSync_def removalPhase_def setFramePhase_def does_def Let_def

lemma setThenRemove_trace:
  "\<exists>h. run heap0 setThenRemove (DebuggerHandler_new idleMultiplexer) = Some h
     \<and> dh_trace h = [Call (StoreSetFileLineBreakpoint 1 ''a.php'' 10 []), ResolveDeferred 1,
                     Call (MuxRemoveBreakpoint 1)]"
  by (simp add: setThenRemove_def heap0_def handler_defs)

lemma pending_removal_waits:
  "run heap0 [CallSetBreakpoints ''a.php'' [0], ResumeAfterRemovals 0,
              CallSetBreakpoints ''a.php'' [], ResumeRemove 0]
     (DebuggerHandler_new idleMultiplexer) = None"
  by (simp add: heap0_def handler_defs)

theorem remove_only_after_resolution_witness:
  "\<exists>h. run heap0 setThenRemove (DebuggerHandler_new idleMultiplexer) = Some h
     \<and> dh_trace h ! 2 = Call (MuxRemoveBreakpoint 1)
     \<and> ResolveDeferred 1 \<in> set (take 2 (dh_trace h))"
proof -
  from setThenRemove_trace obtain h
    where r: "run heap0 setThenRemove (DebuggerHandler_new idleMultiplexer) = Some h"
      and t: "dh_trace h = [Call (StoreSetFileLineBreakpoint 1 ''a.php'' 10 []), ResolveDeferred 1,
                            Call (MuxRemoveBreakpoint 1)]"
    by blast
  from t have i: "2 < length (dh_trace h)" and c: "dh_trace h ! 2 = Call (MuxRemoveBreakpoint 1)"
    by simp_all
  from remove_only_after_resolution [OF r i c] r c show ?thesis by blast
qed

subsection \<open>DebuggerHandler: the diff of setBreakpoints\<close>

lemma set_jsSet [simp]: "set (jsSet xs) = set xs"
  by (simp add: jsSet_def)

lemma ids_addBpDescriptors:
  "d \<in> set (addBpDescriptors n path srcs) \<Longrightarrow> n < bd_id d \<and> bd_id d \<le> n + length srcs"
  by (induction srcs arbitrary: n) fastforce+

lemma distinct_addBpDescriptors: "distinct (map bd_id (addBpDescriptors n path srcs))"
proof (induction srcs arbitrary: n)
  case Nil
  show ?case by simp
next
  case (Cons s srcs)
  have "Suc n \<notin> bd_id ` set (addBpDescriptors (Suc n) path srcs)"
  proof
    assume "Suc n \<in> bd_id ` set (addBpDescriptors (Suc n) path srcs)"
    then obtain d where "d \<in> set (addBpDescriptors (Suc n) path srcs)" and "bd_id d = Suc n"
      by auto
    with ids_addBpDescriptors [of d "Suc n" path srcs] show False by simp
  qed
  with Cons.IH show ?case by simp
qed

lemma lines_addBpDescriptors:
  "map bd_line (addBpDescriptors n path srcs) = map sb_line srcs"
  by (induction srcs arbitrary: n) simp_all

lemma length_addBpDescriptors [simp]: "length (addBpDescriptors n path srcs) = length srcs"
  by (induction srcs arbitrary: n) simp_all

lemma set_lines_addBpDescriptors:
  "bd_line ` set (addBpDescriptors n path srcs) = sb_line ` set srcs"
  using lines_addBpDescriptors [of n path srcs] by (metis set_map)

lemma kept_by_id_iff_line:
  assumes "distinct (map bd_id E)" and "e \<in> set E"
  shows "bd_id e \<in> set (map bd_id (toRemoveBpDesciptiors heap E S))
         \<longleftrightarrow> bd_line e \<notin> (\<lambda>v. sb_line (heap v)) ` set S"
proof
  assume "bd_id e \<in> set (map bd_id (toRemoveBpDesciptiors heap E S))"
  then obtain r where r: "r \<in> set E" "bd_line r \<notin> (\<lambda>v. sb_line (heap v)) ` set S" "bd_id r = bd_id e"
    by (auto simp add: toRemoveBpDesciptiors_def setDifference_def)
  from assms(1) have "inj_on bd_id (set E)" by (simp add: distinct_map)
  with r(1,3) assms(2) have "r = e" by (auto dest: inj_onD)
  with r(2) show "bd_line e \<notin> (\<lambda>v. sb_line (heap v)) ` set S" by simp
next
  assume "bd_line e \<notin> (\<lambda>v. sb_line (heap v)) ` set S"
  with assms(2) have "e \<in> set (toRemoveBpDesciptiors heap E S)"
    by (simp add: toRemoveBpDesciptiors_def setDifference_def)
  then show "bd_id e \<in> set (map bd_id (toRemoveBpDesciptiors heap E S))" by simp
qed

lemma lines_new:
  assumes "distinct (map bd_id E)"
  shows "bd_line ` set (newBreakpoints heap n path E S)
         = (bd_line ` set E \<inter> (\<lambda>v. sb_line (heap v)) ` set S)
           \<union> ((\<lambda>v. sb_line (heap v)) ` set S - bd_line ` set E)"
proof -
  have kept: "set (filter (\<lambda>bp. bd_id bp \<notin> set (map bd_id (toRemoveBpDesciptiors heap E S))) E)
              = {e \<in> set E. bd_line e \<in> (\<lambda>v. sb_line (heap v)) ` set S}"
    using kept_by_id_iff_line [OF assms] by auto
  have added: "bd_line ` set (addBpDescriptors n path (map heap (addBpSources heap E S)))
               = (\<lambda>v. sb_line (heap v)) ` set S - bd_line ` set E"
    by (auto simp add: set_lines_addBpDescriptors addBpSources_def setDifference_def)
  show ?thesis
    unfolding newBreakpoints_def set_append image_Un kept added by auto
qed

lemma diff_idempotent:
  assumes "distinct (map bd_id E)"
  shows "addBpSources heap (newBreakpoints heap n path E S) S = []"
    and "toRemoveBpDesciptiors heap (newBreakpoints heap n path E S) S = []"
proof -
  have l: "bd_line ` set (newBreakpoints heap n path E S) = (\<lambda>v. sb_line (heap v)) ` set S"
    unfolding lines_new [OF assms] by auto
  show "addBpSources heap (newBreakpoints heap n path E S) S = []"
    unfolding addBpSources_def setDifference_def filter_empty_conv set_jsSet l by simp
  show "toRemoveBpDesciptiors heap (newBreakpoints heap n path E S) S = []"
    unfolding toRemoveBpDesciptiors_def setDifference_def filter_empty_conv set_jsSet
    using l by auto
qed


subsection \<open>DebuggerHandler: descriptor ids\<close>

lemma existing_ids:
  assumes "idsInv h"
  shows "distinct (map bd_id (existingBreakpoints path h))"
    and "bp \<in> set (existingBreakpoints path h) \<Longrightarrow> bd_id bp \<le> dh_breakpointId h"
proof -
  have "distinct (map bd_id (existingBreakpoints path h))
        \<and> (\<forall>bp \<in> set (existingBreakpoints path h). bd_id bp \<le> dh_breakpointId h)"
  proof (cases "map_of (dh_breakpoints h) path")
    case None
    then show ?thesis by (simp add: existingBreakpoints_def)
  next
    case (Some bps)
    with assms have "distinct (map bd_id bps) \<and> (\<forall>bp \<in> set bps. bd_id bp \<le> dh_breakpointId h)"
      unfolding idsInv_def by blast
    with Some show ?thesis by (simp add: existingBreakpoints_def)
  qed
  then show "distinct (map bd_id (existingBreakpoints path h))"
    and "bp \<in> set (existingBreakpoints path h) \<Longrightarrow> bd_id bp \<le> dh_breakpointId h"
    by simp_all
qed

lemma breakpoints_setBreakpoints:
  "dh_breakpoints (setBreakpoints heap path S h)
     = AList.update path (newBreakpoints heap (dh_breakpointId h) path (existingBreakpoints path h) S) (dh_breakpoints h)"
  by (simp add: setBreakpoints_def Let_def fold_removeBreakpoint newBreakpoints_def)

lemma breakpointId_setBreakpoints:
  "dh_breakpointId (setBreakpoints heap path S h)
     = dh_breakpointId h + length (addBpSources heap (existingBreakpoints path h) S)"
  by (simp add: setBreakpoints_def Let_def fold_removeBreakpoint)

lemma existing_setBreakpoints:
  "existingBreakpoints path (setBreakpoints heap path S h)
     = newBreakpoints heap (dh_breakpointId h) path (existingBreakpoints path h) S"
  by (simp add: existingBreakpoints_def [of path "setBreakpoints heap path S h"]
        breakpoints_setBreakpoints update_conv')

lemma new_ids:
  assumes "distinct (map bd_id E)" and "\<forall>bp \<in> set E. bd_id bp \<le> n"
  shows "distinct (map bd_id (newBreakpoints heap n path E S))"
    and "bp \<in> set (newBreakpoints heap n path E S) \<Longrightarrow> bd_id bp \<le> n + length (addBpSources heap E S)"
proof -
  let ?kept = "filter (\<lambda>bp. bd_id bp \<notin> set (map bd_id (toRemoveBpDesciptiors heap E S))) E"
  let ?added = "addBpDescriptors n path (map heap (addBpSources heap E S))"
  have "distinct (map bd_id ?kept)"
    using assms(1) by (rule distinct_map_filter)
  moreover have "distinct (map bd_id ?added)"
    by (rule distinct_addBpDescriptors)
  moreover have "bd_id ` set ?kept \<inter> bd_id ` set ?added = {}"
    using assms(2) ids_addBpDescriptors [of _ n path "map heap (addBpSources heap E S)"]
    by fastforce
  ultimately show "distinct (map bd_id (newBreakpoints heap n path E S))"
    by (simp add: newBreakpoints_def)
  show "bd_id bp \<le> n + length (addBpSources heap E S)" if "bp \<in> set (newBreakpoints heap n path E S)"
    using that assms(2) ids_addBpDescriptors [of bp n path "map heap (addBpSources heap E S)"]
    by (auto simp add: newBreakpoints_def)
qed

lemma idsInv_setBreakpoints:
  assumes "idsInv h"
  shows "idsInv (setBreakpoints heap path S h)"
  unfolding idsInv_def
proof (intro allI impI)
  fix p bps
  assume look: "map_of (dh_breakpoints (setBreakpoints heap path S h)) p = Some bps"
  let ?E = "existingBreakpoints path h"
  let ?n = "dh_breakpointId h"
  have bound: "\<forall>bp \<in> set ?E. bd_id bp \<le> ?n"
    using existing_ids(2) [OF assms] by blast
  show "distinct (map bd_id bps)
        \<and> (\<forall>bp \<in> set bps. bd_id bp \<le> dh_breakpointId (setBreakpoints heap path S h))"
  proof (cases "p = path")
    case True
    with look have "bps = newBreakpoints heap ?n path ?E S"
      by (simp add: breakpoints_setBreakpoints update_conv')
    then show ?thesis
      using new_ids [OF existing_ids(1) [OF assms] bound]
      by (simp add: breakpointId_setBreakpoints)
  next
    case False
    with look have "map_of (dh_breakpoints h) p = Some bps"
      by (simp add: breakpoints_setBreakpoints update_conv')
    with assms have "distinct (map bd_id bps)" and "\<forall>bp \<in> set bps. bd_id bp \<le> ?n"
      by (auto simp add: idsInv_def)
    then show ?thesis
      by (auto simp add: breakpointId_setBreakpoints)
  qed
qed

lemma keeps_does [simp]:
  "dh_breakpoints (does e h) = dh_breakpoints h" "dh_breakpointId (does e h) = dh_breakpointId h"
  by (simp_all add: does_def)

lemma keeps_setHitCount [simp]:
  "dh_breakpoints (setHitCount b n h) = dh_breakpoints h"
  "dh_breakpointId (setHitCount b n h) = dh_breakpointId h"
  by (simp_all add: setHitCount_def Let_def split: option.splits)

lemma keeps_updateBreakpointHitCount [simp]:
  "dh_breakpoints (updateBreakpointHitCount h) = dh_breakpoints h"
  "dh_breakpointId (updateBreakpointHitCount h) = dh_breakpointId h"
  by (simp_all add: updateBreakpointHitCount_def Let_def split: option.splits)

lemma keeps_sendPausedMessage [simp]:
  "dh_breakpoints (fst (sendPausedMessage h)) = dh_breakpoints h"
  "dh_breakpointId (fst (sendPausedMessage h)) = dh_breakpointId h"
  by (simp_all add: sendPausedMessage_def Let_def split: option.splits)

lemma keeps_onStatusChanged [simp]:
  "dh_breakpoints (fst (onStatusChanged status h)) = dh_breakpoints h"
  "dh_breakpointId (fst (onStatusChanged status h)) = dh_breakpointId h"
  by (cases status;
      simp add: onStatusChanged_def Let_def endSession_def disposeSubscriptions_def
        fold_disposeSubscription)+

lemma keeps_fold_set [simp]:
  "dh_breakpoints (fold setBreakpointFromDesciptior ds h) = dh_breakpoints h"
  "dh_breakpointId (fold setBreakpointFromDesciptior ds h) = dh_breakpointId h"
  by (induction ds arbitrary: h; simp add: setBreakpointFromDesciptior_def)+

lemma idsInv_cong:
  "dh_breakpoints h' = dh_breakpoints h \<Longrightarrow> dh_breakpointId h' = dh_breakpointId h \<Longrightarrow>
   idsInv h \<Longrightarrow> idsInv h'"
  by (simp add: idsInv_def)

lemma idsInv_exec:
  assumes "idsInv h" and "exec heap a h = Some h'"
  shows "idsInv h'"
proof (cases a)
  case (CallSetBreakpoints path S)
  with assms show ?thesis by (auto intro: idsInv_setBreakpoints)
next
  case (CallRemoveBreakpoint d)
  with assms show ?thesis by (auto simp add: removeBreakpoint_def elim: idsInv_cong [rotated 2])
next
  case CallPause
  with assms show ?thesis by (auto simp add: pause_def elim: idsInv_cong [rotated 2])
next
  case (CallStep c)
  with assms show ?thesis by (auto simp add: sendContinuationCommand_def elim: idsInv_cong [rotated 2])
next
  case (Notify status)
  with assms show ?thesis by (auto elim: idsInv_cong [rotated 2])
next
  case (MuxShows mux)
  with assms show ?thesis by (auto elim: idsInv_cong [rotated 2])
next
  case (ResumeRemove k)
  with assms show ?thesis
    by (auto simp add: removeBreakpoint_resume_def split: if_splits elim: idsInv_cong [rotated 2])
next
  case (SettleRemove k ok)
  with assms show ?thesis
    by (auto simp add: removeBreakpoint_settled_def split: if_splits elim: idsInv_cong [rotated 2])
next
  case (SettleStore k outcome)
  with assms show ?thesis
    by (auto simp add: setBreakpointFromDesciptior_settled_def Let_def
          split: if_splits option.splits elim: idsInv_cong [rotated 2])
next
  case (ResumeAfterRemovals c)
  with assms show ?thesis
    by (auto simp add: setBreakpoints_afterRemovals_def setFramePhase_def Let_def
          split: if_splits elim: idsInv_cong [rotated 2])
next
  case (ResumeAfterSync c)
  with assms show ?thesis
    by (auto simp add: setBreakpoints_afterSync_def setFramePhase_def Let_def
          split: if_splits elim: idsInv_cong [rotated 2])
qed

lemma idsInv_run: "idsInv h \<Longrightarrow> run heap acts h = Some h' \<Longrightarrow> idsInv h'"
proof (induction acts arbitrary: h)
  case Nil
  then show ?case by simp
next
  case (Cons a acts)
  then show ?case by (auto split: option.splits dest: idsInv_exec)
qed

lemma idsInv_new: "idsInv (DebuggerHandler_new mux)"
  by (simp add: idsInv_def DebuggerHandler_new_def)

text \<open>
  C2. In every state that a new handler can reach, for every path and every array of
  source breakpoints: after a call of \<open>setBreakpoints\<close>, a second call with the same
  path and array computes an empty add set and an empty remove set, so that it leaves
  the stored descriptors and the id counter as they are and starts no removal.
\<close>

theorem setBreakpoints_idempotent:
  assumes "run heap acts (DebuggerHandler_new mux) = Some h"
  shows "addBpSources heap (existingBreakpoints path (setBreakpoints heap path S h)) S = []
       \<and> toRemoveBpDesciptiors heap (existingBreakpoints path (setBreakpoints heap path S h)) S = []
       \<and> dh_breakpoints (setBreakpoints heap path S (setBreakpoints heap path S h))
           = dh_breakpoints (setBreakpoints heap path S h)
       \<and> dh_breakpointId (setBreakpoints heap path S (setBreakpoints heap path S h))
           = dh_breakpointId (setBreakpoints heap path S h)
       \<and> dh_removals (setBreakpoints heap path S (setBreakpoints heap path S h))
           = dh_removals (setBreakpoints heap path S h)"
proof -
  let ?h1 = "setBreakpoints heap path S h"
  let ?E1 = "existingBreakpoints path ?h1"
  from idsInv_new assms have inv: "idsInv h" by (rule idsInv_run)
  have E1: "?E1 = newBreakpoints heap (dh_breakpointId h) path (existingBreakpoints path h) S"
    by (rule existing_setBreakpoints)
  have add: "addBpSources heap ?E1 S = []" and rem: "toRemoveBpDesciptiors heap ?E1 S = []"
    unfolding E1 by (rule diff_idempotent [OF existing_ids(1) [OF inv]])+
  have same: "newBreakpoints heap (dh_breakpointId ?h1) path ?E1 S = ?E1"
    by (simp add: newBreakpoints_def add rem)
  have bps: "dh_breakpoints (setBreakpoints heap path S ?h1) = dh_breakpoints ?h1"
    unfolding breakpoints_setBreakpoints [of heap path S ?h1] same
    by (simp add: E1 breakpoints_setBreakpoints)
  have cnt: "dh_breakpointId (setBreakpoints heap path S ?h1) = dh_breakpointId ?h1"
    by (simp add: breakpointId_setBreakpoints [of heap path S ?h1] add)
  have rms: "dh_removals (setBreakpoints heap path S ?h1) = dh_removals ?h1"
    by (simp add: setBreakpoints_def [of heap path S ?h1] Let_def fold_removeBreakpoint rem)
  from add rem bps cnt rms show ?thesis by simp
qed

lemma first_call_changes:
  "addBpSources heap0
     (existingBreakpoints ''a.php''
        (setBreakpoints heap0 ''a.php'' [0] (DebuggerHandler_new idleMultiplexer))) [1] = [1]
   \<and> map bd_line
       (toRemoveBpDesciptiors heap0
          (existingBreakpoints ''a.php''
             (setBreakpoints heap0 ''a.php'' [0] (DebuggerHandler_new idleMultiplexer))) [1])
     = [10]"
  by (simp add: heap0_def handler_defs)

theorem setBreakpoints_idempotent_witness:
  "addBpSources heap0
     (existingBreakpoints ''a.php''
        (setBreakpoints heap0 ''a.php'' [1]
           (setBreakpoints heap0 ''a.php'' [0] (DebuggerHandler_new idleMultiplexer)))) [1] = []
   \<and> toRemoveBpDesciptiors heap0
       (existingBreakpoints ''a.php''
          (setBreakpoints heap0 ''a.php'' [1]
             (setBreakpoints heap0 ''a.php'' [0] (DebuggerHandler_new idleMultiplexer)))) [1] = []"
  using setBreakpoints_idempotent [of heap0 "[CallSetBreakpoints ''a.php'' [0]]" idleMultiplexer
          "setBreakpoints heap0 ''a.php'' [0] (DebuggerHandler_new idleMultiplexer)" "''a.php''" "[1]"]
  by simp

end
